theory Spec2Isabelle
  imports Complex_Main
begin

section \<open>The modal dialog of gowid (widgets/dialog/dialog.go)\<close>

text \<open>
  The dialog package splices an overlay holding the dialog into a container of the live
  widget tree and restores the container's child on close. Widgets are Go pointers and
  interface values, so the model keeps them in an explicit store: a reference is an index
  into the list of allocated objects, a nil interface value is \<open>None\<close>, and every
  panic of the Go code (a method call on a nil interface, a failed type assertion) is a
  value of the result type.
\<close>

subsection \<open>Values of the gowid library used by the package\<close>

type_synonym ref = nat

text \<open>
  Modelled from the spec: the size policies of package gowid (RenderFixed, RenderFlow,
  RenderWithWeight, RenderWithRatio and their siblings) are declared outside
  dialog.go. The spec names "fit to natural size", "proportional share of available
  space" and "fraction of available space"; the constructors carry the names the source
  uses. The float64 of RenderWithRatio is only ever copied and compared by the
  package, so it is a real number here.
\<close>

datatype dimension =
    RenderFixed
  | RenderFlow
  | RenderMax
  | RenderWithUnits int
  | RenderWithRatio real
  | RenderWithWeight int
  | RenderFlowWith int

text \<open>A gowid.IWidgetDimension is an interface value: \<open>None\<close> is nil.\<close>

type_synonym IWidgetDimension = "dimension option"

text \<open>
  Modelled from the spec: the type assertion \<open>width.(gowid.IRenderFixed)\<close> of OpenExt
  succeeds when the width policy "denotes size to natural content width"; of the
  policies above that is RenderFixed alone, and the assertion fails on nil.
\<close>

fun IRenderFixed :: "IWidgetDimension \<Rightarrow> bool" where
  "IRenderFixed (Some RenderFixed) = True"
| "IRenderFixed _ = False"

datatype IColor = NewUrwidColor string

datatype ICellStyler = MakePaletteEntry IColor IColor | ClientStyler nat

datatype IVAlignment = VAlignMiddle | VAlignTop | VAlignBottom

datatype IHAlignment = HAlignMiddle | HAlignLeft | HAlignRight

datatype FrameRunes = UnicodeAltFrame | UnicodeFrame | AsciiFrame | SpaceFrame

record framed_Options =
  Frame :: FrameRunes
  Style :: ICellStyler

text \<open>
  Modelled from the spec: the colours, stylers, alignments and frames above are opaque
  handles of the library ("button/background style handles (opaque to the core)"), kept
  so that New can be followed argument by argument.

  A gowid.WidgetChangedFunction is a Go function value. \<open>QuitFn\<close> is the library's,
  \<open>ClientFn n\<close> stands for a function of the client, and \<open>CloseFn r\<close> is the closure
  \<open>func(app, widget) { res.Close(app) }\<close> that dialog.go builds (lines 154-156 and
  226-228), \<open>r\<close> being the dialog its captured variable points to. A
  gowid.WidgetCallback is a name and such a function.
\<close>

datatype WidgetChangedFunction = QuitFn | ClientFn nat | CloseFn ref

datatype WidgetCallback = WidgetCallback string WidgetChangedFunction

text \<open>
  Modelled from the spec: the widget packages that New calls (text, button, styled,
  hpadding, divider, columns, pile, framed, cellmod, shadow) are outside dialog.go. The
  spec treats them as "cosmetic composition of already-built widgets", so each
  constructor of the library is a constructor of this datatype, with the arguments of
  the Go call. The widgets are built fresh and are reachable only through the dialog, so
  they are values; the content and the content wrapper, which are shared, are held by
  reference.
\<close>

datatype widget =
    WidgetAt "ref option"
  | ContainerWidgetAt ref
  | text_New string
  | button_New widget "WidgetCallback list"
  | styled_New widget ICellStyler
  | styled_NewExt widget ICellStyler ICellStyler
  | hpadding_New widget IHAlignment IWidgetDimension
  | divider_NewUnicodeAlt
  | ContainerWidgetOf widget IWidgetDimension
  | columns_New "widget list"
  | pile_NewFlow "widget list"
  | framed_New widget framed_Options
  | cellmod_Opaque widget
  | shadow_New widget int

subsection \<open>The types of dialog.go\<close>

record Button =
  Msg :: string
  Action :: "WidgetChangedFunction option"

record Options =
  Buttons :: "Button list"
  NoShadow :: bool
  NoEscapeClose :: bool
  ButtonStyle :: "ICellStyler option"
  BackgroundStyle :: "ICellStyler option"

text \<open>
  The struct Widget. The field \<open>open\<close> is \<open>open'\<close> here (the name is taken in HOL).
  The field Callbacks, the observer registry, holds callbacks of the client; the model
  records each run of the registry in the trace of the state instead.
\<close>

record Widget =
  IWidget :: "ref option"
  Options :: Options
  savedSubWidgetWidget :: "ref option"
  savedContainer :: "ref option"
  contentWrapper :: "ref option"
  open' :: bool
  NoFunction :: "WidgetCallback option"

text \<open>
  Modelled from the spec: the struct gowid.ContainerWidget is declared outside
  dialog.go: a widget and the size policy (field D) it is laid out with.
\<close>

datatype ContainerWidget = ContainerWidget "ref option" IWidgetDimension

text \<open>
  Modelled from the spec: the overlay of package overlay is not in dialog.go. The spec's
  "Overlay construction primitive: given (top widget, bottom widget, horizontal
  alignment, width policy, vertical alignment, height policy)" is a record of those six
  values, with Width, SetWidth, Height and SetHeight reading and writing the policies.
\<close>

record overlay_Widget =
  top :: "ref option"
  bottom :: "ref option"
  valign :: IVAlignment
  height :: IWidgetDimension
  halign :: IHAlignment
  width :: IWidgetDimension

text \<open>
  The objects of the store. \<open>CompositeObj child\<close> is any other
  gowid.ISettableComposite (the App, a holder): per the spec "a Container capability:
  get-child / set-child on a single slot".
\<close>

datatype obj =
    DialogObj Widget
  | OverlayObj overlay_Widget
  | CompositeObj "ref option"
  | ContainerWidgetObj ContainerWidget
  | WidgetObj widget

text \<open>The keys of the observer registry: the types OpenCloseCB, SavedSubWidget, SavedContainer.\<close>

datatype cbkey = OpenCloseCB | SavedSubWidgetCB | SavedContainerCB

text \<open>
  An entry of the trace: a run of the registry for a key (with the app and the widget
  handed to the callbacks), or a call of a function of the client.
\<close>

datatype notification =
    RanWidgetCallbacks cbkey ref ref
  | Called WidgetChangedFunction ref ref

record state =
  heap :: "obj list"
  trace :: "notification list"

text \<open>
  The panics of the Go runtime. \<open>IllTyped\<close> is a reference that is dangling or of the
  wrong kind, which Go's type system excludes; the model returns it to stay total.
\<close>

datatype panic = NilDereference | InterfaceConversion | IllTyped

type_synonym 'a result = "panic + 'a"

definition andThen :: "'a result \<Rightarrow> ('a \<Rightarrow> 'b result) \<Rightarrow> 'b result" where
  "andThen r f = (case r of Inl e \<Rightarrow> Inl e | Inr x \<Rightarrow> f x)"

definition lookup :: "state \<Rightarrow> ref \<Rightarrow> obj option" where
  "lookup s r = (if r < length (heap s) then Some (heap s ! r) else None)"

definition store :: "ref \<Rightarrow> obj \<Rightarrow> state \<Rightarrow> state" where
  "store r v s = s\<lparr>heap := (heap s)[r := v]\<rparr>"

definition alloc :: "obj \<Rightarrow> state \<Rightarrow> ref \<times> state" where
  "alloc v s = (length (heap s), s\<lparr>heap := heap s @ [v]\<rparr>)"

definition the_dialog :: "ref \<Rightarrow> state \<Rightarrow> Widget result" where
  "the_dialog w s = (case lookup s w of Some (DialogObj d) \<Rightarrow> Inr d | _ \<Rightarrow> Inl IllTyped)"

text \<open>
  Modelled from the spec: gowid.RunWidgetCallbacks is outside dialog.go. The spec's
  observer registry "fires all callbacks for a key synchronously"; the callbacks are
  code of the client, so a run of the registry is recorded in the trace.
\<close>

definition RunWidgetCallbacks :: "cbkey \<Rightarrow> ref \<Rightarrow> ref \<Rightarrow> state \<Rightarrow> state" where
  "RunWidgetCallbacks name app w s = s\<lparr>trace := trace s @ [RanWidgetCallbacks name app w]\<rparr>"

subsection \<open>The container capability\<close>

text \<open>
  \<open>container.SubWidget()\<close> and \<open>container.SetSubWidget(inner, app)\<close> on an interface
  value of type gowid.ISettableComposite: a call on nil panics, a dialog answers with its
  own methods (lines 216-222), any other container with its child slot.
\<close>

definition ISettableComposite_SubWidget :: "ref option \<Rightarrow> state \<Rightarrow> (ref option) result" where
  "ISettableComposite_SubWidget c s =
     (case c of
        None \<Rightarrow> Inl NilDereference
      | Some r \<Rightarrow>
          (case lookup s r of
             Some (DialogObj d) \<Rightarrow> Inr (IWidget d)
           | Some (CompositeObj child) \<Rightarrow> Inr child
           | _ \<Rightarrow> Inl IllTyped))"

definition ISettableComposite_SetSubWidget ::
    "ref option \<Rightarrow> ref option \<Rightarrow> ref \<Rightarrow> state \<Rightarrow> state result" where
  "ISettableComposite_SetSubWidget c inner app s =
     (case c of
        None \<Rightarrow> Inl NilDereference
      | Some r \<Rightarrow>
          (case lookup s r of
             Some (DialogObj d) \<Rightarrow> Inr (store r (DialogObj (d\<lparr>IWidget := inner\<rparr>)) s)
           | Some (CompositeObj child) \<Rightarrow> Inr (store r (CompositeObj inner) s)
           | _ \<Rightarrow> Inl IllTyped))"

subsection \<open>The methods of Widget\<close>

text \<open>
  The receiver \<open>w\<close> is the address of a Widget. The package functions Close, Open,
  OpenExt and UserInput take interface values (IWidget, IOpenExt); the Widget of this
  file is their one implementation in dialog.go, so they are modelled on it.
\<close>

definition SubWidget :: "ref \<Rightarrow> state \<Rightarrow> (ref option) result" where
  "SubWidget w s = andThen (the_dialog w s) (\<lambda>d. Inr (IWidget d))"

definition SetSubWidget :: "ref \<Rightarrow> ref option \<Rightarrow> ref \<Rightarrow> state \<Rightarrow> state result" where
  "SetSubWidget w inner app s =
     andThen (the_dialog w s) (\<lambda>d. Inr (store w (DialogObj (d\<lparr>IWidget := inner\<rparr>)) s))"

definition EscapeCloses :: "ref \<Rightarrow> state \<Rightarrow> bool result" where
  "EscapeCloses w s = andThen (the_dialog w s) (\<lambda>d. Inr (\<not> NoEscapeClose (Options d)))"

definition IsOpen :: "ref \<Rightarrow> state \<Rightarrow> bool result" where
  "IsOpen w s = andThen (the_dialog w s) (\<lambda>d. Inr (open' d))"

definition SetOpen :: "ref \<Rightarrow> bool \<Rightarrow> ref \<Rightarrow> state \<Rightarrow> state result" where
  "SetOpen w opn app s =
     andThen (the_dialog w s) (\<lambda>d.
       let prev = open' d;
           s1 = store w (DialogObj (d\<lparr>open' := opn\<rparr>)) s
       in if prev \<noteq> opn then Inr (RunWidgetCallbacks OpenCloseCB app w s1) else Inr s1)"

definition SavedSubWidget :: "ref \<Rightarrow> state \<Rightarrow> (ref option) result" where
  "SavedSubWidget w s = andThen (the_dialog w s) (\<lambda>d. Inr (savedSubWidgetWidget d))"

definition SetSavedSubWidget :: "ref \<Rightarrow> ref option \<Rightarrow> ref \<Rightarrow> state \<Rightarrow> state result" where
  "SetSavedSubWidget w w2 app s =
     andThen (the_dialog w s) (\<lambda>d.
       Inr (RunWidgetCallbacks SavedSubWidgetCB app w
              (store w (DialogObj (d\<lparr>savedSubWidgetWidget := w2\<rparr>)) s)))"

definition SavedContainer :: "ref \<Rightarrow> state \<Rightarrow> (ref option) result" where
  "SavedContainer w s = andThen (the_dialog w s) (\<lambda>d. Inr (savedContainer d))"

definition SetSavedContainer :: "ref \<Rightarrow> ref option \<Rightarrow> ref \<Rightarrow> state \<Rightarrow> state result" where
  "SetSavedContainer w c app s =
     andThen (the_dialog w s) (\<lambda>d.
       Inr (RunWidgetCallbacks SavedContainerCB app w
              (store w (DialogObj (d\<lparr>savedContainer := c\<rparr>)) s)))"

text \<open>
  \<open>w.SavedContainer().SubWidget().(*overlay.Widget)\<close>, the head of Width, SetWidth,
  Height and SetHeight: the call on a nil container panics, and so does the type
  assertion when the child is nil or is no overlay. The result is the overlay's address.
\<close>

definition the_overlay :: "ref \<Rightarrow> state \<Rightarrow> (ref \<times> overlay_Widget) result" where
  "the_overlay w s =
     andThen (SavedContainer w s) (\<lambda>c.
     andThen (ISettableComposite_SubWidget c s) (\<lambda>sub.
       case sub of
         None \<Rightarrow> Inl InterfaceConversion
       | Some r \<Rightarrow>
           (case lookup s r of
              Some (OverlayObj ov) \<Rightarrow> Inr (r, ov)
            | _ \<Rightarrow> Inl InterfaceConversion)))"

definition Width :: "ref \<Rightarrow> state \<Rightarrow> IWidgetDimension result" where
  "Width w s = andThen (the_overlay w s) (\<lambda>(r, ov). Inr (width ov))"

definition SetWidth :: "ref \<Rightarrow> IWidgetDimension \<Rightarrow> ref \<Rightarrow> state \<Rightarrow> state result" where
  "SetWidth w d app s =
     andThen (the_overlay w s) (\<lambda>(r, ov). Inr (store r (OverlayObj (ov\<lparr>width := d\<rparr>)) s))"

definition Height :: "ref \<Rightarrow> state \<Rightarrow> IWidgetDimension result" where
  "Height w s = andThen (the_overlay w s) (\<lambda>(r, ov). Inr (height ov))"

definition SetHeight :: "ref \<Rightarrow> IWidgetDimension \<Rightarrow> ref \<Rightarrow> state \<Rightarrow> state result" where
  "SetHeight w d app s =
     andThen (the_overlay w s) (\<lambda>(r, ov). Inr (store r (OverlayObj (ov\<lparr>height := d\<rparr>)) s))"

text \<open>\<open>w.contentWrapper.D = d\<close>: a nil contentWrapper (a Widget not built by New) panics.\<close>

definition SetContentWidth :: "ref \<Rightarrow> IWidgetDimension \<Rightarrow> ref \<Rightarrow> state \<Rightarrow> state result" where
  "SetContentWidth w d app s =
     andThen (the_dialog w s) (\<lambda>dlg.
       case contentWrapper dlg of
         None \<Rightarrow> Inl NilDereference
       | Some r \<Rightarrow>
           (case lookup s r of
              Some (ContainerWidgetObj (ContainerWidget x old)) \<Rightarrow>
                Inr (store r (ContainerWidgetObj (ContainerWidget x d)) s)
            | _ \<Rightarrow> Inl IllTyped))"

subsection \<open>The splice: Close, Open, OpenExt\<close>

definition Close :: "ref \<Rightarrow> ref \<Rightarrow> state \<Rightarrow> state result" where
  "Close w app s =
     andThen (SavedContainer w s) (\<lambda>c.
     andThen (SavedSubWidget w s) (\<lambda>sub.
     andThen (ISettableComposite_SetSubWidget c sub app s) (\<lambda>s1.
     SetOpen w False app s1)))"

text \<open>
  Close statement by statement, with the state in which it ends: the state it returns,
  or the state in which the statement that panics was reached. The first component is
  the panic, if any. The call of line 315 changes nothing when it panics, and neither
  does SetOpen.
\<close>

definition Close_run :: "ref \<Rightarrow> ref \<Rightarrow> state \<Rightarrow> panic option \<times> state" where
  "Close_run w app s =
     (case andThen (SavedContainer w s) (\<lambda>c.
           andThen (SavedSubWidget w s) (\<lambda>sub.
           ISettableComposite_SetSubWidget c sub app s)) of
        Inl e \<Rightarrow> (Some e, s)
      | Inr s1 \<Rightarrow>
          (case SetOpen w False app s1 of
             Inl e \<Rightarrow> (Some e, s1)
           | Inr s2 \<Rightarrow> (None, s2)))"

text \<open>Modelled from the spec: overlay.New allocates the overlay of its six arguments.\<close>

definition overlay_New ::
    "ref option \<Rightarrow> ref option \<Rightarrow> IVAlignment \<Rightarrow> IWidgetDimension \<Rightarrow> IHAlignment \<Rightarrow>
     IWidgetDimension \<Rightarrow> state \<Rightarrow> ref \<times> state" where
  "overlay_New t b va h ha wd s =
     alloc (OverlayObj \<lparr>top = t, bottom = b, valign = va, height = h, halign = ha, width = wd\<rparr>) s"

definition OpenExt ::
    "ref \<Rightarrow> ref option \<Rightarrow> IWidgetDimension \<Rightarrow> IWidgetDimension \<Rightarrow> ref \<Rightarrow> state \<Rightarrow> state result" where
  "OpenExt w container wd ht app s =
     andThen (ISettableComposite_SubWidget container s) (\<lambda>below.
       let (ov, s1) = overlay_New (Some w) below VAlignMiddle ht HAlignMiddle wd s in
       andThen (if IRenderFixed wd
                then SetContentWidth w (Some RenderFixed) app s1
                else SetContentWidth w (Some (RenderWithWeight 1)) app s1) (\<lambda>s2.
       andThen (ISettableComposite_SubWidget container s2) (\<lambda>prior.
       andThen (SetSavedSubWidget w prior app s2) (\<lambda>s3.
       andThen (SetSavedContainer w container app s3) (\<lambda>s4.
       andThen (ISettableComposite_SetSubWidget container (Some ov) app s4) (\<lambda>s5.
       SetOpen w True app s5))))))"

definition Open :: "ref \<Rightarrow> ref option \<Rightarrow> IWidgetDimension \<Rightarrow> ref \<Rightarrow> state \<Rightarrow> state result" where
  "Open w container wd app s = OpenExt w container wd (Some RenderFlow) app s"

subsection \<open>Input routing\<close>

text \<open>
  Modelled from the spec: the events of package tcell are outside dialog.go; the spec's
  input event abstraction distinguishes "a generic event, an interrupt/cancel signal, and
  an escape-key signal". \<open>EventKey k\<close> is a \<open>*tcell.EventKey\<close> whose \<open>Key()\<close> is \<open>k\<close>.
\<close>

datatype Key = KeyCtrlC | KeyEsc | KeyEnter | KeyRune char | KeyOther nat

datatype event = EventKey Key | EventOther nat

definition GetNoFunction :: "ref \<Rightarrow> WidgetCallback" where
  "GetNoFunction w = WidgetCallback ''no'' (CloseFn w)"

text \<open>
  Modelled from the spec: \<open>cb.Changed(app, widget)\<close> of gowid.WidgetCallback is outside
  dialog.go; it calls the function of the callback. The closure built by dialog.go
  closes its dialog (the spec's "no/close callback (default: Close)"); a function of the
  client is recorded in the trace.
\<close>

definition Changed :: "WidgetCallback \<Rightarrow> ref \<Rightarrow> ref \<Rightarrow> state \<Rightarrow> state result" where
  "Changed cb app wdg s =
     (case cb of
        WidgetCallback name f \<Rightarrow>
          (case f of
             CloseFn r \<Rightarrow> Close r app s
           | _ \<Rightarrow> Inr (s\<lparr>trace := trace s @ [Called f app wdg]\<rparr>)))"

text \<open>
  gowid.UserInputIfSelectable, which hands the event to the dialog body, is outside
  dialog.go and is the first parameter of UserInput: it may change the state (a button
  of the body may close the dialog) and it answers whether the body handled the event.
\<close>

definition UserInput ::
    "(ref option \<Rightarrow> event \<Rightarrow> 'sz \<Rightarrow> 'foc \<Rightarrow> ref \<Rightarrow> state \<Rightarrow> (bool \<times> state) result) \<Rightarrow>
     ref \<Rightarrow> event \<Rightarrow> 'sz \<Rightarrow> 'foc \<Rightarrow> ref \<Rightarrow> state \<Rightarrow> (bool \<times> state) result" where
  "UserInput UserInputIfSelectable w ev sz focus app s =
     andThen (IsOpen w s) (\<lambda>isopen.
       if isopen then
         andThen (case ev of
                    EventKey k \<Rightarrow>
                      if k = KeyCtrlC \<or> k = KeyEsc then EscapeCloses w s else Inr False
                  | _ \<Rightarrow> Inr False) (\<lambda>closes.
           if closes then
             andThen (Changed (GetNoFunction w) app w s) (\<lambda>s1. Inr (True, s1))
           else
             andThen (SubWidget w s) (\<lambda>sub.
             andThen (UserInputIfSelectable sub ev sz focus app s) (\<lambda>(discarded, s1).
             Inr (True, s1))))
       else
         andThen (SubWidget w s) (\<lambda>sub. UserInputIfSelectable sub ev sz focus app s))"

subsection \<open>The Maximizer\<close>

text \<open>The fields Width and Height are \<open>Width'\<close> and \<open>Height'\<close>: the names are the dialog's methods.\<close>

record Maximizer =
  Maxed :: bool
  Width' :: IWidgetDimension
  Height' :: IWidgetDimension

definition Maximize :: "Maximizer \<Rightarrow> ref \<Rightarrow> ref \<Rightarrow> state \<Rightarrow> (bool \<times> Maximizer \<times> state) result" where
  "Maximize m w app s =
     (if Maxed m then Inr (False, m, s)
      else
        andThen (Width w s) (\<lambda>wd.
        andThen (Height w s) (\<lambda>ht.
        andThen (SetWidth w (Some (RenderWithRatio 1)) app s) (\<lambda>s1.
        andThen (SetHeight w (Some (RenderWithRatio 1)) app s1) (\<lambda>s2.
        Inr (True, m\<lparr>Width' := wd, Height' := ht, Maxed := True\<rparr>, s2))))))"

definition Unmaximize :: "Maximizer \<Rightarrow> ref \<Rightarrow> ref \<Rightarrow> state \<Rightarrow> (bool \<times> Maximizer \<times> state) result" where
  "Unmaximize m w app s =
     (if \<not> Maxed m then Inr (False, m, s)
      else
        andThen (SetWidth w (Width' m) app s) (\<lambda>s1.
        andThen (SetHeight w (Height' m) app s1) (\<lambda>s2.
        Inr (True, m\<lparr>Maxed := False\<rparr>, s2))))"

subsection \<open>Construction\<close>

definition DefaultBackground :: IColor where
  "DefaultBackground = NewUrwidColor ''white''"

definition DefaultButton :: IColor where
  "DefaultButton = NewUrwidColor ''dark blue''"

definition DefaultButtonText :: IColor where
  "DefaultButtonText = NewUrwidColor ''yellow''"

definition DefaultText :: IColor where
  "DefaultText = NewUrwidColor ''black''"

text \<open>\<open>fmt.Sprintf("cb-%d", i)\<close> for a slice index: the decimal digits of \<open>i\<close>.\<close>

fun decimal :: "nat \<Rightarrow> string" where
  "decimal n =
     (if n < 10 then [''0123456789'' ! n]
      else decimal (n div 10) @ [''0123456789'' ! (n mod 10)])"

declare decimal.simps [simp del]

text \<open>
  Modelled from the spec: \<open>bw.OnClick(cb)\<close> of package button, which is outside
  dialog.go, registers the callback with the button as one more of its click observers.
\<close>

fun OnClick :: "widget \<Rightarrow> WidgetCallback \<Rightarrow> widget" where
  "OnClick (button_New inner cbs) cb = button_New inner (cbs @ [cb])"
| "OnClick other cb = other"

text \<open>
  The loop over \<open>opts[0].Buttons\<close> (lines 150-170): \<open>i\<close> is the index, \<open>colsW\<close> the slice
  appended to, and \<open>res\<close> the dialog that the variable captured by the closure holds
  once New has returned.
\<close>

fun buttons_loop ::
    "ref \<Rightarrow> ICellStyler \<Rightarrow> ICellStyler \<Rightarrow> nat \<Rightarrow> Button list \<Rightarrow> widget list \<Rightarrow> widget list" where
  "buttons_loop res backgroundStyle buttonStyle i [] colsW = colsW"
| "buttons_loop res backgroundStyle buttonStyle i (b # rest) colsW =
     (let bw = button_New (text_New (Msg b)) [];
          bw1 = (case Action b of
                   None \<Rightarrow> OnClick bw (WidgetCallback (''cb-'' @ decimal i) (CloseFn res))
                 | Some f \<Rightarrow> OnClick bw (WidgetCallback (''cb-'' @ decimal i) f))
      in buttons_loop res backgroundStyle buttonStyle (Suc i) rest
           (colsW @
            [ContainerWidgetOf
               (hpadding_New (styled_NewExt bw1 backgroundStyle buttonStyle)
                  HAlignMiddle (Some RenderFixed))
               (Some (RenderWithWeight 1))]))"

text \<open>The zero value of Options, which New uses when it is given none.\<close>

definition zero_Options :: Options where
  "zero_Options =
     \<lparr>Buttons = [], NoShadow = False, NoEscapeClose = False,
      ButtonStyle = None, BackgroundStyle = None\<rparr>"

text \<open>
  New allocates the content wrapper, the composed body and the dialog, in this order, so
  the dialog is the second object after the wrapper: that address is \<open>res\<close>.
\<close>

definition New :: "ref option \<Rightarrow> Options list \<Rightarrow> state \<Rightarrow> ref \<times> state" where
  "New content opts s =
     (let opt = (case opts of [] \<Rightarrow> zero_Options | o0 # others \<Rightarrow> o0);
          buttonStyle = (case ButtonStyle opt of
                           None \<Rightarrow> MakePaletteEntry DefaultButtonText DefaultButton
                         | Some st \<Rightarrow> st);
          backgroundStyle = (case BackgroundStyle opt of
                               None \<Rightarrow> MakePaletteEntry DefaultText DefaultBackground
                             | Some st \<Rightarrow> st);
          borderStyle = (case BackgroundStyle opt of
                           None \<Rightarrow> MakePaletteEntry DefaultButton DefaultBackground
                         | Some st \<Rightarrow> st);
          (wrapper, s1) = alloc (ContainerWidgetObj
                                   (ContainerWidget content (Some (RenderWithWeight 1)))) s;
          res = wrapper + 2;
          colsW = (case opts of
                     [] \<Rightarrow> []
                   | o0 # others \<Rightarrow> buttons_loop res backgroundStyle buttonStyle 0 (Buttons o0) []);
          pileW = [ContainerWidgetAt wrapper] @
                  (if length colsW > 0
                   then [styled_New divider_NewUnicodeAlt borderStyle, columns_New colsW]
                   else []);
          dialogContent = pile_NewFlow pileW;
          frameOpts = \<lparr>Frame = UnicodeAltFrame, Style = borderStyle\<rparr>;
          d = cellmod_Opaque (styled_New (framed_New dialogContent frameOpts) backgroundStyle);
          d1 = (if \<not> NoShadow opt then shadow_New d 1 else d);
          (body, s2) = alloc (WidgetObj d1) s1
      in alloc (DialogObj
                  \<lparr>IWidget = Some body, Options = opt, savedSubWidgetWidget = None,
                   savedContainer = None, contentWrapper = Some wrapper, open' = False,
                   NoFunction = None\<rparr>) s2)"

subsection \<open>Sequences of operations on one dialog\<close>

datatype dialog_op =
    OpOpen "ref option" IWidgetDimension
  | OpOpenExt "ref option" IWidgetDimension IWidgetDimension
  | OpClose
  | OpSetOpen bool

fun run_op :: "ref \<Rightarrow> ref \<Rightarrow> dialog_op \<Rightarrow> state \<Rightarrow> state result" where
  "run_op w app (OpOpen c wd) s = Open w c wd app s"
| "run_op w app (OpOpenExt c wd ht) s = OpenExt w c wd ht app s"
| "run_op w app OpClose s = Close w app s"
| "run_op w app (OpSetOpen b) s = SetOpen w b app s"

fun run_ops :: "ref \<Rightarrow> ref \<Rightarrow> dialog_op list \<Rightarrow> state \<Rightarrow> state result" where
  "run_ops w app [] s = Inr s"
| "run_ops w app (x # xs) s = andThen (run_op w app x s) (run_ops w app xs)"

fun is_SetOpen :: "dialog_op \<Rightarrow> bool" where
  "is_SetOpen (OpSetOpen b) = True"
| "is_SetOpen other = False"

text \<open>
  The invariant in the spec's words: isOpen == true, savedContainer != nil and
  savedChild != nil are all equivalent.
\<close>

definition spec_invariant :: "Widget \<Rightarrow> bool" where
  "spec_invariant d \<longleftrightarrow>
     (open' d \<longleftrightarrow> savedContainer d \<noteq> None) \<and>
     (savedContainer d \<noteq> None \<longleftrightarrow> savedSubWidgetWidget d \<noteq> None)"

text \<open>What the code keeps: an open dialog and a saved child both come with a saved container.\<close>

definition saved_invariant :: "Widget \<Rightarrow> bool" where
  "saved_invariant d \<longleftrightarrow>
     (open' d \<longrightarrow> savedContainer d \<noteq> None) \<and>
     (savedSubWidgetWidget d \<noteq> None \<longrightarrow> savedContainer d \<noteq> None)"

text \<open>The number of runs of the open/close registry for a dialog that a trace holds.\<close>

definition openclose_runs :: "ref \<Rightarrow> state \<Rightarrow> nat" where
  "openclose_runs w s =
     length (filter (\<lambda>n. case n of RanWidgetCallbacks k a x \<Rightarrow> k = OpenCloseCB \<and> x = w
                               | _ \<Rightarrow> False) (trace s))"

text \<open>The click observers of the buttons of a composed widget, in the order of the buttons.\<close>

fun click_targets :: "widget \<Rightarrow> WidgetCallback list list" where
  "click_targets (WidgetAt r) = []"
| "click_targets (ContainerWidgetAt r) = []"
| "click_targets (text_New t) = []"
| "click_targets (button_New inner cbs) = [cbs]"
| "click_targets (styled_New x st) = click_targets x"
| "click_targets (styled_NewExt x st1 st2) = click_targets x"
| "click_targets (hpadding_New x a d) = click_targets x"
| "click_targets divider_NewUnicodeAlt = []"
| "click_targets (ContainerWidgetOf x d) = click_targets x"
| "click_targets (columns_New xs) = concat (map click_targets xs)"
| "click_targets (pile_NewFlow xs) = concat (map click_targets xs)"
| "click_targets (framed_New x opts) = click_targets x"
| "click_targets (cellmod_Opaque x) = click_targets x"
| "click_targets (shadow_New x n) = click_targets x"

subsection \<open>Well-formed dialogs and an example store\<close>

text \<open>
  A dialog as New leaves it: the address holds a Widget whose contentWrapper points to
  an allocated gowid.ContainerWidget.
\<close>

definition constructed :: "ref \<Rightarrow> state \<Rightarrow> bool" where
  "constructed w s =
     (case lookup s w of
        Some (DialogObj d) \<Rightarrow>
          (case contentWrapper d of
             Some cw \<Rightarrow> (case lookup s cw of Some (ContainerWidgetObj x) \<Rightarrow> True | _ \<Rightarrow> False)
           | None \<Rightarrow> False)
      | _ \<Rightarrow> False)"

text \<open>The size policy of the content wrapper of a dialog: \<open>w.contentWrapper.D\<close>.\<close>

definition contentSizing :: "ref \<Rightarrow> state \<Rightarrow> IWidgetDimension result" where
  "contentSizing w s =
     andThen (the_dialog w s) (\<lambda>d.
       case contentWrapper d of
         None \<Rightarrow> Inl NilDereference
       | Some r \<Rightarrow>
           (case lookup s r of
              Some (ContainerWidgetObj (ContainerWidget x dm)) \<Rightarrow> Inr dm
            | _ \<Rightarrow> Inl IllTyped))"

text \<open>
  A store with a container at address 0 whose child is the widget at 1, and a closed
  dialog at 4 with its body at 2 and its content wrapper at 3.
\<close>

definition example_dialog :: Widget where
  "example_dialog =
     \<lparr>IWidget = Some 2, Options = zero_Options, savedSubWidgetWidget = None,
      savedContainer = None, contentWrapper = Some 3, open' = False, NoFunction = None\<rparr>"

definition example_state :: state where
  "example_state =
     \<lparr>heap = [CompositeObj (Some 1), WidgetObj (text_New ''below''),
              WidgetObj (text_New ''body''),
              ContainerWidgetObj (ContainerWidget (Some 2) (Some (RenderWithWeight 1))),
              DialogObj example_dialog],
      trace = []\<rparr>"

text \<open>The same store after \<open>Open(4, 0, RenderFixed)\<close>, and after the \<open>Close(4)\<close> that follows.\<close>

definition example_open_state :: state where
  "example_open_state =
     \<lparr>heap = [CompositeObj (Some 5), WidgetObj (text_New ''below''),
              WidgetObj (text_New ''body''),
              ContainerWidgetObj (ContainerWidget (Some 2) (Some RenderFixed)),
              DialogObj (example_dialog\<lparr>savedSubWidgetWidget := Some 1,
                                        savedContainer := Some 0, open' := True\<rparr>),
              OverlayObj \<lparr>top = Some 4, bottom = Some 1, valign = VAlignMiddle,
                          height = Some RenderFlow, halign = HAlignMiddle,
                          width = Some RenderFixed\<rparr>],
      trace = [RanWidgetCallbacks SavedSubWidgetCB 0 4, RanWidgetCallbacks SavedContainerCB 0 4,
               RanWidgetCallbacks OpenCloseCB 0 4]\<rparr>"

definition example_closed_state :: state where
  "example_closed_state =
     \<lparr>heap = [CompositeObj (Some 1), WidgetObj (text_New ''below''),
              WidgetObj (text_New ''body''),
              ContainerWidgetObj (ContainerWidget (Some 2) (Some RenderFixed)),
              DialogObj (example_dialog\<lparr>savedSubWidgetWidget := Some 1,
                                        savedContainer := Some 0, open' := False\<rparr>),
              OverlayObj \<lparr>top = Some 4, bottom = Some 1, valign = VAlignMiddle,
                          height = Some RenderFlow, halign = HAlignMiddle,
                          width = Some RenderFixed\<rparr>],
      trace = [RanWidgetCallbacks SavedSubWidgetCB 0 4, RanWidgetCallbacks SavedContainerCB 0 4,
               RanWidgetCallbacks OpenCloseCB 0 4, RanWidgetCallbacks OpenCloseCB 0 4]\<rparr>"

text \<open>The same store after \<open>SetOpen(true)\<close> alone on the dialog at 4.\<close>

definition example_set_open_state :: state where
  "example_set_open_state =
     \<lparr>heap = [CompositeObj (Some 1), WidgetObj (text_New ''below''),
              WidgetObj (text_New ''body''),
              ContainerWidgetObj (ContainerWidget (Some 2) (Some (RenderWithWeight 1))),
              DialogObj (example_dialog\<lparr>open' := True\<rparr>)],
      trace = [RanWidgetCallbacks OpenCloseCB 0 4]\<rparr>"

text \<open>The open dialog of the example built with the option NoEscapeClose.\<close>

definition example_no_escape_state :: state where
  "example_no_escape_state =
     \<lparr>heap = [CompositeObj (Some 5), WidgetObj (text_New ''below''),
              WidgetObj (text_New ''body''),
              ContainerWidgetObj (ContainerWidget (Some 2) (Some RenderFixed)),
              DialogObj (example_dialog\<lparr>Options := zero_Options\<lparr>NoEscapeClose := True\<rparr>,
                                        savedSubWidgetWidget := Some 1,
                                        savedContainer := Some 0, open' := True\<rparr>),
              OverlayObj \<lparr>top = Some 4, bottom = Some 1, valign = VAlignMiddle,
                          height = Some RenderFlow, halign = HAlignMiddle,
                          width = Some RenderFixed\<rparr>],
      trace = []\<rparr>"

text \<open>A dialog body that handles no event and changes nothing.\<close>

definition idle_body ::
    "ref option \<Rightarrow> event \<Rightarrow> unit \<Rightarrow> unit \<Rightarrow> ref \<Rightarrow> state \<Rightarrow> (bool \<times> state) result" where
  "idle_body sub ev sz focus app s = Inr (False, s)"

text \<open>The cancel gestures of UserInput: a key event whose key is Ctrl-C or Escape.\<close>

definition cancel_gesture :: "event \<Rightarrow> bool" where
  "cancel_gesture ev = (case ev of EventKey k \<Rightarrow> k = KeyCtrlC \<or> k = KeyEsc | _ \<Rightarrow> False)"

text \<open>
  The rows of the pile inside the widget that New composes, under its frame, styles and
  shadow; and the composed widget that a dialog of the store holds as its sub-widget.
\<close>

fun body_rows :: "widget \<Rightarrow> widget list" where
  "body_rows (pile_NewFlow rows) = rows"
| "body_rows (framed_New x opts) = body_rows x"
| "body_rows (styled_New x st) = body_rows x"
| "body_rows (cellmod_Opaque x) = body_rows x"
| "body_rows (shadow_New x n) = body_rows x"
| "body_rows other = []"

definition dialog_body :: "ref \<Rightarrow> state \<Rightarrow> widget option" where
  "dialog_body w s =
     (case lookup s w of
        Some (DialogObj d) \<Rightarrow>
          (case IWidget d of
             Some b \<Rightarrow> (case lookup s b of Some (WidgetObj t) \<Rightarrow> Some t | _ \<Rightarrow> None)
           | None \<Rightarrow> None)
      | _ \<Rightarrow> None)"

text \<open>The callback that the loop of New registers with the button at index \<open>i\<close>.\<close>

definition button_callback :: "ref \<Rightarrow> nat \<Rightarrow> Button \<Rightarrow> WidgetCallback" where
  "button_callback res i b =
     WidgetCallback (''cb-'' @ decimal i) (case Action b of None \<Rightarrow> CloseFn res | Some f \<Rightarrow> f)"

text \<open>The column that the loop of New appends for the button at index \<open>i\<close>.\<close>

definition button_column :: "ref \<Rightarrow> ICellStyler \<Rightarrow> ICellStyler \<Rightarrow> nat \<Rightarrow> Button \<Rightarrow> widget" where
  "button_column res backgroundStyle buttonStyle i b =
     ContainerWidgetOf
       (hpadding_New
          (styled_NewExt (button_New (text_New (Msg b)) [button_callback res i b])
             backgroundStyle buttonStyle)
          HAlignMiddle (Some RenderFixed))
       (Some (RenderWithWeight 1))"

text \<open>The buttons that New is given: those of the first Options, if there is one.\<close>

definition given_buttons :: "Options list \<Rightarrow> Button list" where
  "given_buttons opts = (case opts of [] \<Rightarrow> [] | o0 # others \<Rightarrow> Buttons o0)"

text \<open>A store with a container and its child, and two button specs, Ok and Cancel.\<close>

definition small_state :: state where
  "small_state = \<lparr>heap = [CompositeObj (Some 1), WidgetObj (text_New ''below'')], trace = []\<rparr>"

definition ok_cancel :: Options where
  "ok_cancel =
     \<lparr>Buttons = [\<lparr>Msg = ''Ok'', Action = Some QuitFn\<rparr>, \<lparr>Msg = ''Cancel'', Action = None\<rparr>],
      NoShadow = False, NoEscapeClose = False, ButtonStyle = None, BackgroundStyle = None\<rparr>"

text \<open>
  The store that \<open>New(1)\<close> makes of the small one, after \<open>SetOpen(true)\<close> on the new
  dialog, which is at address 4.
\<close>

definition new_set_open_state :: state where
  "new_set_open_state =
     \<lparr>heap = [CompositeObj (Some 1), WidgetObj (text_New ''below''),
              ContainerWidgetObj (ContainerWidget (Some 1) (Some (RenderWithWeight 1))),
              WidgetObj
                (shadow_New
                   (cellmod_Opaque
                      (styled_New
                         (framed_New (pile_NewFlow [ContainerWidgetAt 2])
                            \<lparr>Frame = UnicodeAltFrame,
                             Style = MakePaletteEntry DefaultButton DefaultBackground\<rparr>)
                         (MakePaletteEntry DefaultText DefaultBackground)))
                   1),
              DialogObj
                \<lparr>IWidget = Some 3, Options = zero_Options, savedSubWidgetWidget = None,
                 savedContainer = None, contentWrapper = Some 2, open' = True,
                 NoFunction = None\<rparr>],
      trace = [RanWidgetCallbacks OpenCloseCB 0 4]\<rparr>"

text \<open>A property of the Widget struct at an address of the store.\<close>

definition dialog_satisfies :: "(Widget \<Rightarrow> bool) \<Rightarrow> ref \<Rightarrow> state \<Rightarrow> bool" where
  "dialog_satisfies P w s = (case lookup s w of Some (DialogObj d) \<Rightarrow> P d | _ \<Rightarrow> False)"

text \<open>
  A dialog that Close can serve: its saved container is a container of the store, or it
  has none and is closed.
\<close>

definition restorable :: "ref \<Rightarrow> state \<Rightarrow> bool" where
  "restorable w s =
     (case lookup s w of
        Some (DialogObj d) \<Rightarrow>
          (case savedContainer d of
             None \<Rightarrow> \<not> open' d
           | Some c \<Rightarrow>
               (case lookup s c of
                  Some (DialogObj dc) \<Rightarrow> True
                | Some (CompositeObj child) \<Rightarrow> True
                | _ \<Rightarrow> False))
      | _ \<Rightarrow> False)"

section \<open>Properties\<close>

subsection \<open>The store and the result type\<close>

lemma andThen_Inl [simp]: "andThen (Inl e) f = Inl e"
  by (simp add: andThen_def)

lemma andThen_Inr [simp]: "andThen (Inr x) f = f x"
  by (simp add: andThen_def)

lemma andThen_eq_Inr: "andThen r f = Inr y \<longleftrightarrow> (\<exists>x. r = Inr x \<and> f x = Inr y)"
  by (cases r) simp_all

lemma lookup_store [simp]:
  "lookup (store r v s) r' = (if r' = r \<and> r < length (heap s) then Some v else lookup s r')"
  by (simp add: lookup_def store_def)

lemma lookup_RunWidgetCallbacks [simp]: "lookup (RunWidgetCallbacks k a w s) r = lookup s r"
  by (simp add: lookup_def RunWidgetCallbacks_def)

lemma lookup_alloc [simp]:
  "lookup (snd (alloc v s)) r' = (if r' = length (heap s) then Some v else lookup s r')"
  by (auto simp: lookup_def alloc_def nth_append)

lemma fst_alloc [simp]: "fst (alloc v s) = length (heap s)"
  by (simp add: alloc_def)

lemma lookup_Some_lt: "lookup s r = Some v \<Longrightarrow> r < length (heap s)"
  by (simp add: lookup_def split: if_splits)

lemma length_store [simp]: "length (heap (store r v s)) = length (heap s)"
  by (simp add: store_def)

lemma length_RunWidgetCallbacks [simp]:
  "length (heap (RunWidgetCallbacks k a w s)) = length (heap s)"
  by (simp add: RunWidgetCallbacks_def)

lemma length_alloc [simp]: "length (heap (snd (alloc v s))) = Suc (length (heap s))"
  by (simp add: alloc_def)

lemma trace_store [simp]: "trace (store r v s) = trace s"
  by (simp add: store_def)

lemma trace_alloc [simp]: "trace (snd (alloc v s)) = trace s"
  by (simp add: alloc_def)

lemma trace_RunWidgetCallbacks [simp]:
  "trace (RunWidgetCallbacks k a w s) = trace s @ [RanWidgetCallbacks k a w]"
  by (simp add: RunWidgetCallbacks_def)

lemma store_same: "lookup s r = Some v \<Longrightarrow> store r v s = s"
  by (cases s) (auto simp: lookup_def store_def split: if_splits)

lemma the_dialog_Inr [simp]: "the_dialog w s = Inr d \<longleftrightarrow> lookup s w = Some (DialogObj d)"
  by (auto simp: the_dialog_def split: option.splits obj.splits)

lemma the_dialogI: "lookup s w = Some (DialogObj d) \<Longrightarrow> the_dialog w s = Inr d"
  by simp

lemmas ops =
  the_dialog_def SubWidget_def SetSubWidget_def IsOpen_def SetOpen_def SavedSubWidget_def
  SetSavedSubWidget_def SavedContainer_def SetSavedContainer_def SetContentWidth_def
  ISettableComposite_SubWidget_def ISettableComposite_SetSubWidget_def

lemma constructedD:
  assumes "constructed w s"
  shows "\<exists>d cw x old. lookup s w = Some (DialogObj d) \<and> contentWrapper d = Some cw \<and>
     lookup s cw = Some (ContainerWidgetObj (ContainerWidget x old))"
proof -
  from assms obtain d where d: "lookup s w = Some (DialogObj d)"
    unfolding constructed_def by (auto split: option.split_asm obj.split_asm)
  with assms obtain cw where cw: "contentWrapper d = Some cw"
    unfolding constructed_def by (cases "contentWrapper d") auto
  with assms d obtain cwo where "lookup s cw = Some (ContainerWidgetObj cwo)"
    unfolding constructed_def by (auto split: option.split_asm obj.split_asm)
  with d cw show ?thesis by (cases cwo) auto
qed

lemma constructedI:
  "lookup s w = Some (DialogObj d) \<Longrightarrow> contentWrapper d = Some cw \<Longrightarrow>
   lookup s cw = Some (ContainerWidgetObj cwo) \<Longrightarrow> constructed w s"
  by (simp add: constructed_def)

lemmas example_defs =
  example_state_def example_dialog_def example_open_state_def example_closed_state_def
  example_set_open_state_def example_no_escape_state_def zero_Options_def

lemma example_Open:
  "Open 4 (Some 0) (Some RenderFixed) 0 example_state = Inr example_open_state"
  by (simp add: Open_def OpenExt_def overlay_New_def ops example_defs lookup_def alloc_def
      store_def RunWidgetCallbacks_def Let_def)

lemma example_Close: "Close 4 0 example_open_state = Inr example_closed_state"
  by (simp add: Close_def ops example_defs lookup_def store_def RunWidgetCallbacks_def Let_def)

lemma example_SetOpen: "SetOpen 4 True 0 example_state = Inr example_set_open_state"
  by (simp add: ops example_defs lookup_def store_def RunWidgetCallbacks_def Let_def)

lemma example_constructed: "constructed 4 example_state"
  by (simp add: constructed_def example_defs lookup_def)

lemma example_child: "ISettableComposite_SubWidget (Some 0) example_state = Inr (Some 1)"
  by (simp add: ISettableComposite_SubWidget_def example_defs lookup_def)

subsection \<open>What the primitives need and what they leave\<close>

lemma SetContentWidth_InrD:
  assumes "SetContentWidth w dm app s = Inr s'"
  shows "\<exists>d cw x old. lookup s w = Some (DialogObj d) \<and> contentWrapper d = Some cw \<and>
     lookup s cw = Some (ContainerWidgetObj (ContainerWidget x old)) \<and>
     s' = store cw (ContainerWidgetObj (ContainerWidget x dm)) s"
proof -
  from assms obtain d where d: "lookup s w = Some (DialogObj d)"
    unfolding SetContentWidth_def by (auto simp: andThen_eq_Inr)
  with assms obtain cw where cw: "contentWrapper d = Some cw"
    unfolding SetContentWidth_def by (cases "contentWrapper d") (auto simp: the_dialog_def)
  from assms d cw obtain o1 where o1: "lookup s cw = Some o1"
    unfolding SetContentWidth_def by (cases "lookup s cw") (auto simp: the_dialog_def)
  from assms d cw o1 obtain x old where "o1 = ContainerWidgetObj (ContainerWidget x old)"
    unfolding SetContentWidth_def
    by (cases o1) (auto simp: the_dialog_def split: ContainerWidget.split_asm)
  with assms d cw o1 show ?thesis
    unfolding SetContentWidth_def by (auto simp: the_dialog_def)
qed

lemma ISettableComposite_SubWidget_InrD:
  "ISettableComposite_SubWidget C s = Inr X \<Longrightarrow>
   \<exists>c. C = Some c \<and> (lookup s c = Some (CompositeObj X) \<or> (\<exists>d. lookup s c = Some (DialogObj d) \<and> IWidget d = X))"
  unfolding ISettableComposite_SubWidget_def
  by (auto split: option.splits obj.splits)

lemma OpenExt_InrD:
  assumes "OpenExt w C wd ht app s = Inr s'"
  shows "\<exists>d cw x old c X. lookup s w = Some (DialogObj d) \<and> contentWrapper d = Some cw \<and>
     lookup s cw = Some (ContainerWidgetObj (ContainerWidget x old)) \<and> C = Some c \<and>
     ISettableComposite_SubWidget (Some c) s = Inr X"
proof -
  from assms obtain X where X: "ISettableComposite_SubWidget C s = Inr X"
    unfolding OpenExt_def by (auto simp: andThen_eq_Inr)
  then obtain c where c: "C = Some c" 
    by (auto dest: ISettableComposite_SubWidget_InrD)
  define s1 where "s1 = snd (alloc (OverlayObj \<lparr>top = Some w, bottom = X, valign = VAlignMiddle, height = ht, halign = HAlignMiddle, width = wd\<rparr>) s)"
  from assms X obtain s2 where s2: "SetContentWidth w (if IRenderFixed wd then Some RenderFixed else Some (RenderWithWeight 1)) app s1 = Inr s2" 
    unfolding OpenExt_def overlay_New_def s1_def by (auto simp: andThen_eq_Inr split_beta Let_def split: if_splits)
  from SetContentWidth_InrD [OF s2] obtain d cw x old where
    "lookup s1 w = Some (DialogObj d)" "contentWrapper d = Some cw" 
     "lookup s1 cw = Some (ContainerWidgetObj (ContainerWidget x old))" by blast
  then have "lookup s w = Some (DialogObj d)" "lookup s cw = Some (ContainerWidgetObj (ContainerWidget x old))"
    unfolding s1_def by (simp_all split: if_splits)
  with X c \<open>contentWrapper d = Some cw\<close> show ?thesis by auto
qed

lemma OpenExt_post:
  assumes w: "lookup s w = Some (DialogObj d)" and cw: "contentWrapper d = Some cw"
    "lookup s cw = Some (ContainerWidgetObj (ContainerWidget x old))"
    and X: "ISettableComposite_SubWidget (Some c) s = Inr X"
  shows "\<exists>s' d'. OpenExt w (Some c) wd ht app s = Inr s' \<and>
     lookup s' w = Some (DialogObj d') \<and>
     savedSubWidgetWidget d' = X \<and> savedContainer d' = Some c \<and> open' d' \<and>
     Options d' = Options d \<and> contentWrapper d' = Some cw \<and>
     ISettableComposite_SubWidget (Some c) s' = Inr (Some (length (heap s))) \<and>
     lookup s' (length (heap s)) = Some (OverlayObj \<lparr>top = Some w, bottom = X, valign = VAlignMiddle, height = ht, halign = HAlignMiddle, width = wd\<rparr>) \<and>
     lookup s' cw = Some (ContainerWidgetObj (ContainerWidget x (if IRenderFixed wd then Some RenderFixed else Some (RenderWithWeight 1)))) \<and>
     trace s' = trace s @ [RanWidgetCallbacks SavedSubWidgetCB app w, RanWidgetCallbacks SavedContainerCB app w] @
        (if open' d then [] else [RanWidgetCallbacks OpenCloseCB app w])"
proof -
  have lt: "w < length (heap s)" "cw < length (heap s)"
    using assms by (auto dest: lookup_Some_lt)
  have ne: "cw \<noteq> w" using assms by auto
  from ISettableComposite_SubWidget_InrD [OF X]
  consider (comp) "lookup s c = Some (CompositeObj X)"
    | (self) "c = w" "IWidget d = X"
    | (other) dc where "c \<noteq> w" "lookup s c = Some (DialogObj dc)" "IWidget dc = X"
    using w by (cases "c = w") auto
  then show ?thesis
  proof cases
    case comp
    then have "c < length (heap s)" "c \<noteq> w" "c \<noteq> cw" using w cw by (auto dest: lookup_Some_lt)
    with comp w cw lt ne show ?thesis unfolding OpenExt_def overlay_New_def
      by (simp add: ops split_beta Let_def)
  next
    case self
    with w cw lt ne show ?thesis unfolding OpenExt_def overlay_New_def
      by (simp add: ops split_beta Let_def)
  next
    case other
    then have "c < length (heap s)" "c \<noteq> cw" using w cw by (auto dest: lookup_Some_lt)
    with other w cw lt ne show ?thesis unfolding OpenExt_def overlay_New_def
      by (simp add: ops split_beta Let_def)
  qed
qed


lemma Close_post:
  assumes w: "lookup s w = Some (DialogObj d)" and c: "savedContainer d = Some c"
    and Y: "ISettableComposite_SubWidget (Some c) s = Inr Y"
  shows "\<exists>s' d'. Close w app s = Inr s' \<and>
     lookup s' w = Some (DialogObj d') \<and> \<not> open' d' \<and>
     savedContainer d' = Some c \<and> savedSubWidgetWidget d' = savedSubWidgetWidget d \<and>
     Options d' = Options d \<and> contentWrapper d' = contentWrapper d \<and>
     ISettableComposite_SubWidget (Some c) s' = Inr (savedSubWidgetWidget d) \<and>
     trace s' = trace s @ (if open' d then [RanWidgetCallbacks OpenCloseCB app w] else [])"
proof -
  have lt: "w < length (heap s)" using w by (auto dest: lookup_Some_lt)
  from ISettableComposite_SubWidget_InrD [OF Y]
  consider (comp) "lookup s c = Some (CompositeObj Y)"
    | (self) "c = w"
    | (other) dc where "c \<noteq> w" "lookup s c = Some (DialogObj dc)"
    using w by (cases "c = w") auto
  then show ?thesis
  proof cases
    case comp
    then have "c < length (heap s)" "c \<noteq> w" using w by (auto dest: lookup_Some_lt)
    with comp w c lt show ?thesis unfolding Close_def by (simp add: ops Let_def)
  next
    case self
    with w c lt show ?thesis unfolding Close_def by (simp add: ops Let_def)
  next
    case other
    then have "c < length (heap s)" using w by (auto dest: lookup_Some_lt)
    with other w c lt show ?thesis unfolding Close_def by (simp add: ops Let_def)
  qed
qed

lemma Close_nil:
  assumes "lookup s w = Some (DialogObj d)" "savedContainer d = None"
  shows "Close w app s = Inl NilDereference"
  using assms unfolding Close_def by (simp add: ops)

lemma Close_idem:
  assumes w: "lookup s w = Some (DialogObj d)" and c: "savedContainer d = Some c"
    and cl: "\<not> open' d"
    and Y: "ISettableComposite_SubWidget (Some c) s = Inr (savedSubWidgetWidget d)"
  shows "Close w app s = Inr s"
proof -
  from ISettableComposite_SubWidget_InrD [OF Y]
  consider (comp) "lookup s c = Some (CompositeObj (savedSubWidgetWidget d))"
    | (dlg) dc where "lookup s c = Some (DialogObj dc)" "IWidget dc = savedSubWidgetWidget d"
    by auto
  then show ?thesis
  proof cases
    case comp
    then have "store c (CompositeObj (savedSubWidgetWidget d)) s = s" by (rule store_same)
    moreover have "d\<lparr>open' := False\<rparr> = d" using cl by simp
    ultimately show ?thesis using comp w c cl unfolding Close_def
      by (simp add: ops Let_def store_same)
  next
    case dlg
    have "dc\<lparr>IWidget := savedSubWidgetWidget d\<rparr> = dc" using dlg by simp
    then have "store c (DialogObj (dc\<lparr>IWidget := savedSubWidgetWidget d\<rparr>)) s = s" 
      using dlg by (simp add: store_same)
    moreover have "d\<lparr>open' := False\<rparr> = d" using cl by simp
    ultimately show ?thesis using dlg w c cl unfolding Close_def
      by (simp add: ops Let_def store_same)
  qed
qed

subsection \<open>Open then Close\<close>

text \<open>
  Claim C1. For every container C whose child slot holds the widget X (and every dialog
  d built with its content wrapper), Open(d, C, widthPolicy) returns, the Close(d) that
  follows returns, C's child slot then holds exactly X again, and d.IsOpen() is false.
\<close>

theorem Open_Close_restores:
  assumes "constructed d s" and "ISettableComposite_SubWidget C s = Inr X"
  shows "\<exists>s1 s2. Open d C widthPolicy app s = Inr s1 \<and> Close d app s1 = Inr s2 \<and>
    ISettableComposite_SubWidget C s2 = Inr X \<and> IsOpen d s2 = Inr False"
proof -
  from constructedD [OF assms(1)] obtain dlg cw x old where
    f: "lookup s d = Some (DialogObj dlg)" "contentWrapper dlg = Some cw"
     "lookup s cw = Some (ContainerWidgetObj (ContainerWidget x old))" by blast
  from ISettableComposite_SubWidget_InrD [OF assms(2)] obtain c where c: "C = Some c" by blast
  with assms(2) have X: "ISettableComposite_SubWidget (Some c) s = Inr X" by simp
  from OpenExt_post [OF f X, of widthPolicy "Some RenderFlow" app]
  obtain s1 d' where p: "OpenExt d (Some c) widthPolicy (Some RenderFlow) app s = Inr s1"
    "lookup s1 d = Some (DialogObj d')" "savedSubWidgetWidget d' = X"
    "savedContainer d' = Some c"
    "ISettableComposite_SubWidget (Some c) s1 = Inr (Some (length (heap s)))" by blast
  from Close_post [OF p(2,4,5), of app] obtain s2 d2 where
    q: "Close d app s1 = Inr s2" "lookup s2 d = Some (DialogObj d2)" "\<not> open' d2"
    "ISettableComposite_SubWidget (Some c) s2 = Inr (savedSubWidgetWidget d')" by blast
  from p(1) c have "Open d C widthPolicy app s = Inr s1" by (simp add: Open_def)
  moreover from q(2,3) have "IsOpen d s2 = Inr False" by (simp add: IsOpen_def the_dialogI)
  ultimately show ?thesis using q(1,4) p(3) c by auto
qed

theorem Open_Close_restores_witness:
  "constructed 4 example_state \<and>
   ISettableComposite_SubWidget (Some 0) example_state = Inr (Some 1) \<and>
   (\<exists>s1 s2. Open 4 (Some 0) (Some RenderFixed) 0 example_state = Inr s1 \<and>
     Close 4 0 s1 = Inr s2 \<and>
     ISettableComposite_SubWidget (Some 0) s2 = Inr (Some 1) \<and> IsOpen 4 s2 = Inr False)"
  using Open_Close_restores [OF example_constructed example_child, of "Some RenderFixed" 0]
    example_constructed example_child by blast

subsection \<open>The saved container and the saved child across operations\<close>

lemma Close_InrD:
  assumes "Close w app s = Inr s'"
  shows "\<exists>d c Y. lookup s w = Some (DialogObj d) \<and> savedContainer d = Some c \<and>
       ISettableComposite_SubWidget (Some c) s = Inr Y"
proof -
  from assms obtain d where d: "lookup s w = Some (DialogObj d)"
    unfolding Close_def SavedContainer_def by (auto simp: andThen_eq_Inr)
  with assms obtain s1 where s1: "ISettableComposite_SetSubWidget (savedContainer d) (savedSubWidgetWidget d) app s = Inr s1"
    unfolding Close_def SavedContainer_def SavedSubWidget_def
    by (auto simp: andThen_eq_Inr the_dialogI)
  then obtain c where c: "savedContainer d = Some c"
    by (cases "savedContainer d") (auto simp: ISettableComposite_SetSubWidget_def)
  with s1 obtain Y where "ISettableComposite_SubWidget (Some c) s = Inr Y"
    unfolding ISettableComposite_SetSubWidget_def ISettableComposite_SubWidget_def
    by (auto split: option.split_asm obj.split_asm)
  with d c show ?thesis by blast
qed

lemma restorableI:
  "lookup s w = Some (DialogObj d) \<Longrightarrow> savedContainer d = Some c \<Longrightarrow>
   ISettableComposite_SubWidget (Some c) s = Inr Y \<Longrightarrow> restorable w s"
  by (auto simp: restorable_def dest!: ISettableComposite_SubWidget_InrD)

lemma restorable_openD:
  assumes "restorable w s" "IsOpen w s = Inr True"
  shows "\<exists>d c Y. lookup s w = Some (DialogObj d) \<and> savedContainer d = Some c \<and>
       ISettableComposite_SubWidget (Some c) s = Inr Y"
proof -
  from assms(2) obtain d where d: "lookup s w = Some (DialogObj d)" "open' d"
    unfolding IsOpen_def by (auto simp: andThen_eq_Inr)
  with assms(1) obtain c where c: "savedContainer d = Some c"
    unfolding restorable_def by (cases "savedContainer d") auto
  with assms(1) d have "\<exists>Y. ISettableComposite_SubWidget (Some c) s = Inr Y"
    unfolding restorable_def ISettableComposite_SubWidget_def
    by (auto split: option.split_asm obj.split_asm)
  with d c show ?thesis by blast
qed

lemma run_op_restorable:
  assumes "\<not> is_SetOpen x" "run_op w app x s = Inr s'"
  shows "restorable w s' \<and> dialog_satisfies saved_invariant w s'"
proof -
  have op: "OpenExt w C wd ht app s = Inr s' \<Longrightarrow> restorable w s' \<and> dialog_satisfies saved_invariant w s'" for C wd ht
  proof -
    assume o: "OpenExt w C wd ht app s = Inr s'"
    from OpenExt_InrD [OF o] obtain d cw x old c X where
      f: "lookup s w = Some (DialogObj d)" "contentWrapper d = Some cw"
       "lookup s cw = Some (ContainerWidgetObj (ContainerWidget x old))" "C = Some c"
       "ISettableComposite_SubWidget (Some c) s = Inr X" by blast
    from OpenExt_post [OF f(1,2,3,5), of wd ht app] o f(4)
    obtain d' where p: "lookup s' w = Some (DialogObj d')" "savedContainer d' = Some c"
      "ISettableComposite_SubWidget (Some c) s' = Inr (Some (length (heap s)))" by auto
    then show ?thesis by (auto intro: restorableI simp: dialog_satisfies_def saved_invariant_def)
  qed
  show ?thesis
  proof (cases x)
    case (OpOpen C wd) with assms op show ?thesis by (simp add: Open_def)
  next
    case (OpOpenExt C wd ht) with assms op show ?thesis by simp
  next
    case OpClose
    with assms have cl: "Close w app s = Inr s'" by simp
    from Close_InrD [OF cl] obtain d c Y where
      f: "lookup s w = Some (DialogObj d)" "savedContainer d = Some c"
       "ISettableComposite_SubWidget (Some c) s = Inr Y" by blast
    from Close_post [OF f, of app] cl
    obtain d' where "lookup s' w = Some (DialogObj d')" "savedContainer d' = Some c"
      "ISettableComposite_SubWidget (Some c) s' = Inr (savedSubWidgetWidget d)" by auto
    then show ?thesis by (auto intro: restorableI simp: dialog_satisfies_def saved_invariant_def)
  next
    case (OpSetOpen b) with assms show ?thesis by simp
  qed
qed

lemma run_ops_lifecycle:
  "list_all (\<lambda>x. \<not> is_SetOpen x) xs \<Longrightarrow> run_ops w app xs s = Inr s' \<Longrightarrow>
   xs = [] \<and> s' = s \<or> restorable w s' \<and> dialog_satisfies saved_invariant w s'"
proof (induction xs arbitrary: s)
  case Nil
  then show ?case by simp
next
  case (Cons x xs)
  from Cons.prems(2) obtain s1 where s1: "run_op w app x s = Inr s1" "run_ops w app xs s1 = Inr s'"
    by (auto simp: andThen_eq_Inr)
  from Cons.prems(1) have nx: "\<not> is_SetOpen x" and nxs: "list_all (\<lambda>x. \<not> is_SetOpen x) xs" by simp_all
  from run_op_restorable [OF nx s1(1)] Cons.IH [OF nxs s1(2)] show ?case by blast
qed

lemma example_run_open:
  "run_ops 4 0 [OpOpen (Some 0) (Some RenderFixed)] example_state = Inr example_open_state"
  by (simp add: example_Open)

lemma example_run_open_close:
  "run_ops 4 0 [OpOpen (Some 0) (Some RenderFixed), OpClose] example_state = Inr example_closed_state"
  by (simp add: example_Open example_Close)

text \<open>
  Claim C2 says that after any sequence of Open, Close and SetOpen the three conditions
  isOpen == true, savedContainer != nil and savedChild != nil are equivalent, and that a
  dialog just closed by Close has savedContainer == nil and savedChild == nil. The code
  does otherwise: Close (lines 314-317) restores the child and calls SetOpen(false), and
  assigns neither saved field, so after Open and Close the dialog is closed with both
  still set; and SetOpen(true) alone (lines 239-245) opens a dialog whose saved container
  is nil.
\<close>

theorem spec_invariant_counterexample:
  "run_ops 4 0 [OpOpen (Some 0) (Some RenderFixed), OpClose] example_state = Inr example_closed_state \<and>
   IsOpen 4 example_closed_state = Inr False \<and>
   SavedContainer 4 example_closed_state = Inr (Some 0) \<and>
   SavedSubWidget 4 example_closed_state = Inr (Some 1) \<and>
   \<not> dialog_satisfies spec_invariant 4 example_closed_state \<and>
   run_ops 4 0 [OpSetOpen True] example_state = Inr example_set_open_state \<and>
   IsOpen 4 example_set_open_state = Inr True \<and>
   SavedContainer 4 example_set_open_state = Inr None \<and>
   \<not> dialog_satisfies spec_invariant 4 example_set_open_state"
  by (simp add: example_Open example_Close example_SetOpen)
     (simp add: ops example_defs lookup_def dialog_satisfies_def spec_invariant_def)

text \<open>
  Claim C2 as amended. For every DialogWidget that satisfies it at the start (a newly
  constructed one does), after any sequence of Open, OpenExt and Close operations that
  return: isOpen == true implies savedContainer != nil, and savedChild != nil implies
  savedContainer != nil. Close keeps savedContainer and savedChild, and SetOpen is not
  among the operations.
\<close>

theorem saved_invariant_kept:
  assumes "dialog_satisfies saved_invariant w s"
    and "list_all (\<lambda>x. \<not> is_SetOpen x) xs"
    and "run_ops w app xs s = Inr s'"
  shows "dialog_satisfies saved_invariant w s'"
  using run_ops_lifecycle [OF assms(2,3)] assms(1) by auto

theorem saved_invariant_kept_witness:
  "dialog_satisfies saved_invariant 4 example_state \<and>
   list_all (\<lambda>x. \<not> is_SetOpen x) [OpOpen (Some 0) (Some RenderFixed)] \<and>
   run_ops 4 0 [OpOpen (Some 0) (Some RenderFixed)] example_state = Inr example_open_state \<and>
   dialog_satisfies saved_invariant 4 example_open_state \<and>
   IsOpen 4 example_open_state = Inr True \<and>
   SavedContainer 4 example_open_state = Inr (Some 0)"
proof -
  have a: "dialog_satisfies saved_invariant 4 example_state"
    by (simp add: dialog_satisfies_def saved_invariant_def example_defs lookup_def)
  have b: "list_all (\<lambda>x. \<not> is_SetOpen x) [OpOpen (Some 0) (Some RenderFixed)]" by simp
  have c: "IsOpen 4 example_open_state = Inr True" "SavedContainer 4 example_open_state = Inr (Some 0)"
    by (simp_all add: ops example_defs lookup_def)
  from saved_invariant_kept [OF a b example_run_open] a b c example_run_open show ?thesis
    by blast
qed

subsection \<open>Close on a dialog without a saved container\<close>

lemma Close_run_Close:
  "Close w app s = (case Close_run w app s of (None, s') \<Rightarrow> Inr s' | (Some e, s') \<Rightarrow> Inl e)"
  unfolding Close_def Close_run_def
  by (cases "SavedContainer w s"; cases "SavedSubWidget w s")
     (auto split: sum.splits)

lemma Close_NilDereference_iff:
  "Close w app s = Inl NilDereference \<longleftrightarrow> SavedContainer w s = Inr None"
proof (cases "lookup s w")
  case None
  then show ?thesis by (simp add: Close_def SavedContainer_def the_dialog_def)
next
  case (Some ob)
  show ?thesis
  proof (cases ob)
    case (DialogObj d)
    with Some have d: "lookup s w = Some (DialogObj d)" by simp
    show ?thesis
    proof (cases "savedContainer d")
      case None
      with d Close_nil [OF d None] show ?thesis by (simp add: SavedContainer_def the_dialogI)
    next
      case c: (Some c)
      show ?thesis
      proof (cases "ISettableComposite_SetSubWidget (Some c) (savedSubWidgetWidget d) app s")
        case (Inl e)
        then have "e = IllTyped"
          by (auto simp: ISettableComposite_SetSubWidget_def split: option.split_asm obj.split_asm)
        with Inl d c show ?thesis
          by (simp add: Close_def SavedContainer_def SavedSubWidget_def the_dialogI)
      next
        case (Inr s1)
        have "SetOpen w False app s1 \<noteq> Inl NilDereference"
          by (cases "lookup s1 w") (auto simp: SetOpen_def the_dialog_def Let_def split: obj.splits)
        with Inr d c show ?thesis
          by (simp add: Close_def SavedContainer_def SavedSubWidget_def the_dialogI)
      qed
    qed
  qed (use Some in \<open>simp_all add: Close_def SavedContainer_def the_dialog_def\<close>)
qed

lemma zero_Options_fields:
  "Buttons zero_Options = []" "\<not> NoShadow zero_Options" "\<not> NoEscapeClose zero_Options"
  "ButtonStyle zero_Options = None" "BackgroundStyle zero_Options = None"
  by (simp_all add: zero_Options_def)

lemma new_SetOpen:
  "fst (New (Some 1) [] small_state) = 4 \<and>
   SetOpen 4 True 0 (snd (New (Some 1) [] small_state)) = Inr new_set_open_state"
  by (simp add: New_def Let_def split_beta alloc_def small_state_def SetOpen_def the_dialog_def
      lookup_def store_def RunWidgetCallbacks_def new_set_open_state_def zero_Options_fields)

text \<open>
  Claim C9 says that under the precondition that the dialog is open, the write through a
  nil savedContainer is unreachable. The code does otherwise: SetOpen is a method of the
  interface IWidget (line 34) and sets the flag alone (lines 239-245), so after New and
  SetOpen(true) the dialog is open, its savedContainer is nil, and Close panics at line
  315.
\<close>

theorem open_by_SetOpen_counterexample:
  "fst (New (Some 1) [] small_state) = 4 \<and>
   SetOpen 4 True 0 (snd (New (Some 1) [] small_state)) = Inr new_set_open_state \<and>
   IsOpen 4 new_set_open_state = Inr True \<and>
   SavedContainer 4 new_set_open_state = Inr None \<and>
   Close 4 0 new_set_open_state = Inl NilDereference"
proof -
  have "IsOpen 4 new_set_open_state = Inr True"
    "SavedContainer 4 new_set_open_state = Inr None"
    "Close 4 0 new_set_open_state = Inl NilDereference"
    by (simp_all add: Close_def ops new_set_open_state_def lookup_def)
  with new_SetOpen show ?thesis by blast
qed

text \<open>
  Claim C9 as amended. Close on a dialog whose savedContainer is nil panics on the call
  through the nil reference; the state at the panic is the state Close was called in, so
  nothing was added to the trace and no open/close observer ran. That branch is taken
  exactly when savedContainer is nil. It is not reached for a dialog that is open after
  Open, OpenExt and Close operations alone, from a dialog that was never opened (or any
  other whose saved container, if it has one, is a container): such a dialog has a saved
  container and Close returns. That IsOpen is true does not suffice.
\<close>

theorem Close_nil_container:
  "(SavedContainer w s = Inr None \<longrightarrow>
      Close w app s = Inl NilDereference \<and>
      Close_run w app s = (Some NilDereference, s) \<and>
      trace (snd (Close_run w app s)) = trace s \<and>
      openclose_runs w (snd (Close_run w app s)) = openclose_runs w s) \<and>
   (Close w app s = Inl NilDereference \<longleftrightarrow> SavedContainer w s = Inr None) \<and>
   (restorable w s0 \<and> list_all (\<lambda>x. \<not> is_SetOpen x) xs \<and> run_ops w app xs s0 = Inr s \<and>
    IsOpen w s = Inr True \<longrightarrow>
      (\<exists>c s'. SavedContainer w s = Inr (Some c) \<and> Close w app s = Inr s'))"
proof (intro conjI impI)
  assume a: "SavedContainer w s = Inr None"
  then obtain d where d: "lookup s w = Some (DialogObj d)" "savedContainer d = None"
    unfolding SavedContainer_def by (auto simp: andThen_eq_Inr)
  then show "Close w app s = Inl NilDereference" by (rule Close_nil)
  from d show r: "Close_run w app s = (Some NilDereference, s)"
    by (simp add: Close_run_def ops)
  then show "trace (snd (Close_run w app s)) = trace s"
    and "openclose_runs w (snd (Close_run w app s)) = openclose_runs w s" by simp_all
next
  show "Close w app s = Inl NilDereference \<longleftrightarrow> SavedContainer w s = Inr None"
    by (rule Close_NilDereference_iff)
next
  assume a: "restorable w s0 \<and> list_all (\<lambda>x. \<not> is_SetOpen x) xs \<and> run_ops w app xs s0 = Inr s \<and>
    IsOpen w s = Inr True"
  then have "restorable w s" using run_ops_lifecycle [of xs w app s0 s] by auto
  from restorable_openD [OF this] a obtain d c Y where
    f: "lookup s w = Some (DialogObj d)" "savedContainer d = Some c"
    "ISettableComposite_SubWidget (Some c) s = Inr Y" by blast
  from Close_post [OF f, of app] f(1,2)
  show "\<exists>c s'. SavedContainer w s = Inr (Some c) \<and> Close w app s = Inr s'"
    by (auto simp: SavedContainer_def the_dialogI)
qed

theorem Close_nil_container_witness:
  "SavedContainer 4 example_state = Inr None \<and> Close 4 0 example_state = Inl NilDereference \<and>
   Close_run 4 0 example_state = (Some NilDereference, example_state) \<and>
   trace (snd (Close_run 4 0 example_state)) = trace example_state \<and>
   openclose_runs 4 (snd (Close_run 4 0 example_state)) = openclose_runs 4 example_state \<and>
   restorable 4 example_state \<and> list_all (\<lambda>x. \<not> is_SetOpen x) [OpOpen (Some 0) (Some RenderFixed)] \<and>
   run_ops 4 0 [OpOpen (Some 0) (Some RenderFixed)] example_state = Inr example_open_state \<and>
   IsOpen 4 example_open_state = Inr True \<and>
   (\<exists>c s'. SavedContainer 4 example_open_state = Inr (Some c) \<and> Close 4 0 example_open_state = Inr s')"
proof -
  have a: "SavedContainer 4 example_state = Inr None"
    by (simp add: ops example_defs lookup_def)
  have b: "restorable 4 example_state"
    by (simp add: restorable_def example_defs lookup_def)
  have c: "list_all (\<lambda>x. \<not> is_SetOpen x) [OpOpen (Some 0) (Some RenderFixed)]" by simp
  have d: "IsOpen 4 example_open_state = Inr True"
    by (simp add: ops example_defs lookup_def)
  from Close_nil_container [where w = 4 and s = example_state and app = 0]
    a have 1: "Close 4 0 example_state = Inl NilDereference \<and>
      Close_run 4 0 example_state = (Some NilDereference, example_state) \<and>
      trace (snd (Close_run 4 0 example_state)) = trace example_state \<and>
      openclose_runs 4 (snd (Close_run 4 0 example_state)) = openclose_runs 4 example_state"
    by blast
  from Close_nil_container [where w = 4 and s = example_open_state and app = 0
      and ?s0.0 = example_state and xs = "[OpOpen (Some 0) (Some RenderFixed)]"]
    b c d example_run_open
  have 2: "\<exists>c s'. SavedContainer 4 example_open_state = Inr (Some c) \<and> Close 4 0 example_open_state = Inr s'"
    by blast
  from a b c d 1 2 example_run_open show ?thesis by blast
qed

subsection \<open>Close after Close\<close>

text \<open>
  Claim C10. After an Open followed by a Close, the saved container and the saved child
  still hold the container and the child of that Open, and a second Close returns the
  state unchanged: the container's child slot is as it was and nothing is added to the
  trace, so no open/close observer runs.
\<close>

theorem second_Close_idempotent:
  assumes "constructed d s" and "ISettableComposite_SubWidget C s = Inr X"
  shows "\<exists>s1 s2. Open d C widthPolicy app s = Inr s1 \<and> Close d app s1 = Inr s2 \<and>
    SavedContainer d s2 = Inr C \<and> SavedSubWidget d s2 = Inr X \<and>
    ISettableComposite_SubWidget C s2 = Inr X \<and> Close d app s2 = Inr s2"
proof -
  from constructedD [OF assms(1)] obtain dlg cw x old where
    f: "lookup s d = Some (DialogObj dlg)" "contentWrapper dlg = Some cw"
     "lookup s cw = Some (ContainerWidgetObj (ContainerWidget x old))" by blast
  from ISettableComposite_SubWidget_InrD [OF assms(2)] obtain c where c: "C = Some c" by blast
  with assms(2) have X: "ISettableComposite_SubWidget (Some c) s = Inr X" by simp
  from OpenExt_post [OF f X, of widthPolicy "Some RenderFlow" app]
  obtain s1 d' where p: "OpenExt d (Some c) widthPolicy (Some RenderFlow) app s = Inr s1"
    "lookup s1 d = Some (DialogObj d')" "savedSubWidgetWidget d' = X"
    "savedContainer d' = Some c"
    "ISettableComposite_SubWidget (Some c) s1 = Inr (Some (length (heap s)))" by blast
  from Close_post [OF p(2,4,5), of app] obtain s2 d2 where
    q: "Close d app s1 = Inr s2" "lookup s2 d = Some (DialogObj d2)" "\<not> open' d2"
    "savedContainer d2 = Some c" "savedSubWidgetWidget d2 = savedSubWidgetWidget d'"
    "ISettableComposite_SubWidget (Some c) s2 = Inr (savedSubWidgetWidget d')" by blast
  from q(5,6) have "ISettableComposite_SubWidget (Some c) s2 = Inr (savedSubWidgetWidget d2)" by simp
  from Close_idem [OF q(2,4,3) this] have "Close d app s2 = Inr s2" .
  moreover from p(1) c have "Open d C widthPolicy app s = Inr s1" by (simp add: Open_def)
  moreover from q(2,4,5) p(3) c have "SavedContainer d s2 = Inr C" "SavedSubWidget d s2 = Inr X"
    by (simp_all add: SavedContainer_def SavedSubWidget_def the_dialogI)
  ultimately show ?thesis using q(1,6) p(3) c by auto
qed

theorem second_Close_idempotent_witness:
  "constructed 4 example_state \<and>
   ISettableComposite_SubWidget (Some 0) example_state = Inr (Some 1) \<and>
   (\<exists>s1 s2. Open 4 (Some 0) (Some RenderFixed) 0 example_state = Inr s1 \<and>
     Close 4 0 s1 = Inr s2 \<and>
     SavedContainer 4 s2 = Inr (Some 0) \<and> SavedSubWidget 4 s2 = Inr (Some 1) \<and>
     ISettableComposite_SubWidget (Some 0) s2 = Inr (Some 1) \<and> Close 4 0 s2 = Inr s2)"
  using second_Close_idempotent [OF example_constructed example_child, of "Some RenderFixed" 0]
    example_constructed example_child by blast

subsection \<open>The open/close observers\<close>

lemma SetOpen_post:
  assumes "lookup s w = Some (DialogObj d)"
  shows "\<exists>s'. SetOpen w b app s = Inr s' \<and>
     lookup s' w = Some (DialogObj (d\<lparr>open' := b\<rparr>)) \<and>
     trace s' = trace s @ (if open' d \<noteq> b then [RanWidgetCallbacks OpenCloseCB app w] else [])"
proof -
  have "w < length (heap s)" using assms by (rule lookup_Some_lt)
  with assms show ?thesis by (simp add: SetOpen_def the_dialogI Let_def)
qed

text \<open>
  Claim C5. SetOpen runs the open/close registry exactly when the stored value changes:
  the trace grows by that one run if the new value differs from the old, and not at all
  otherwise. So on a closed dialog an Open followed by a Close runs the registry twice,
  and SetOpen(true) twice in a row runs it once.
\<close>

theorem SetOpen_fires_iff_changed:
  assumes "IsOpen w s = Inr was"
  shows "(\<exists>s'. SetOpen w b app s = Inr s' \<and>
            trace s' = trace s @ (if was \<noteq> b then [RanWidgetCallbacks OpenCloseCB app w] else [])) \<and>
         (\<not> was \<and> constructed w s \<and> ISettableComposite_SubWidget C s = Inr X \<longrightarrow>
            (\<exists>s1 s2. Open w C wd app s = Inr s1 \<and> Close w app s1 = Inr s2 \<and>
               openclose_runs w s2 = openclose_runs w s + 2)) \<and>
         (\<not> was \<longrightarrow>
            (\<exists>s1 s2. SetOpen w True app s = Inr s1 \<and> SetOpen w True app s1 = Inr s2 \<and>
               openclose_runs w s2 = openclose_runs w s + 1))"
proof -
  from assms obtain d where d: "lookup s w = Some (DialogObj d)" "open' d = was"
    unfolding IsOpen_def by (auto simp: andThen_eq_Inr)
  have 1: "\<exists>s'. SetOpen w b app s = Inr s' \<and>
            trace s' = trace s @ (if was \<noteq> b then [RanWidgetCallbacks OpenCloseCB app w] else [])"
    using SetOpen_post [OF d(1), of b app] d(2) by auto
  have 2: "\<exists>s1 s2. Open w C wd app s = Inr s1 \<and> Close w app s1 = Inr s2 \<and>
               openclose_runs w s2 = openclose_runs w s + 2"
    if h: "\<not> was" "constructed w s" "ISettableComposite_SubWidget C s = Inr X"
  proof -
    from constructedD [OF h(2)] d(1) obtain cw x old where
      f: "contentWrapper d = Some cw"
       "lookup s cw = Some (ContainerWidgetObj (ContainerWidget x old))" by auto
    from ISettableComposite_SubWidget_InrD [OF h(3)] obtain c where c: "C = Some c" by blast
    with h(3) have X: "ISettableComposite_SubWidget (Some c) s = Inr X" by simp
    from OpenExt_post [OF d(1) f X, of wd "Some RenderFlow" app] d(2) h(1)
    obtain s1 d' where p: "OpenExt w (Some c) wd (Some RenderFlow) app s = Inr s1"
      "lookup s1 w = Some (DialogObj d')" "open' d'" "savedContainer d' = Some c"
      "ISettableComposite_SubWidget (Some c) s1 = Inr (Some (length (heap s)))"
      "trace s1 = trace s @ [RanWidgetCallbacks SavedSubWidgetCB app w,
          RanWidgetCallbacks SavedContainerCB app w, RanWidgetCallbacks OpenCloseCB app w]"
      by auto
    from Close_post [OF p(2,4,5), of app] p(3) obtain s2 where
      q: "Close w app s1 = Inr s2" "trace s2 = trace s1 @ [RanWidgetCallbacks OpenCloseCB app w]"
      by auto
    from p(6) have "openclose_runs w s1 = openclose_runs w s + 1"
      by (simp add: openclose_runs_def)
    moreover from q(2) have "openclose_runs w s2 = openclose_runs w s1 + 1"
      by (simp add: openclose_runs_def)
    ultimately have "openclose_runs w s2 = openclose_runs w s + 2" by simp
    with p(1) q(1) c show ?thesis by (auto simp: Open_def)
  qed
  have 3: "\<exists>s1 s2. SetOpen w True app s = Inr s1 \<and> SetOpen w True app s1 = Inr s2 \<and>
               openclose_runs w s2 = openclose_runs w s + 1" if h: "\<not> was"
  proof -
    from SetOpen_post [OF d(1), of True app] d(2) h obtain s1 where
      p: "SetOpen w True app s = Inr s1" "lookup s1 w = Some (DialogObj (d\<lparr>open' := True\<rparr>))"
       "trace s1 = trace s @ [RanWidgetCallbacks OpenCloseCB app w]" by auto
    from SetOpen_post [OF p(2), of True app] obtain s2 where
      q: "SetOpen w True app s1 = Inr s2" "trace s2 = trace s1" by auto
    from p(3) q(2) have "openclose_runs w s2 = openclose_runs w s + 1"
      by (simp add: openclose_runs_def)
    with p(1) q(1) show ?thesis by blast
  qed
  from 1 2 3 show ?thesis by blast
qed

theorem SetOpen_fires_iff_changed_witness:
  "IsOpen 4 example_state = Inr False \<and> constructed 4 example_state \<and>
   ISettableComposite_SubWidget (Some 0) example_state = Inr (Some 1) \<and>
   (\<exists>s'. SetOpen 4 True 0 example_state = Inr s' \<and>
         trace s' = trace example_state @ [RanWidgetCallbacks OpenCloseCB 0 4]) \<and>
   (\<exists>s'. SetOpen 4 False 0 example_state = Inr s' \<and> trace s' = trace example_state) \<and>
   (\<exists>s1 s2. Open 4 (Some 0) (Some RenderFixed) 0 example_state = Inr s1 \<and> Close 4 0 s1 = Inr s2 \<and>
        openclose_runs 4 s2 = openclose_runs 4 example_state + 2) \<and>
   (\<exists>s1 s2. SetOpen 4 True 0 example_state = Inr s1 \<and> SetOpen 4 True 0 s1 = Inr s2 \<and>
        openclose_runs 4 s2 = openclose_runs 4 example_state + 1)"
proof -
  have a: "IsOpen 4 example_state = Inr False"
    by (simp add: ops example_defs lookup_def)
  from SetOpen_fires_iff_changed [OF a, of True 0 "Some 0" "Some 1" "Some RenderFixed"]
    SetOpen_fires_iff_changed [OF a, of False 0 "Some 0" "Some 1" "Some RenderFixed"]
    a example_constructed example_child
  show ?thesis by simp
qed

subsection \<open>The content sizing chosen by OpenExt\<close>

text \<open>
  Claim C8. OpenExt leaves the content wrapper of the dialog sized to its natural width
  (RenderFixed) exactly when the width policy is one of natural content width, and with
  weight 1 otherwise; and Open is OpenExt with the flow height policy.
\<close>

theorem OpenExt_content_sizing:
  assumes "constructed w s" and "ISettableComposite_SubWidget C s = Inr X"
  shows "(\<exists>s'. OpenExt w C wd ht app s = Inr s' \<and>
            contentSizing w s' =
              Inr (if IRenderFixed wd then Some RenderFixed else Some (RenderWithWeight 1))) \<and>
         Open w C wd app s = OpenExt w C wd (Some RenderFlow) app s"
proof -
  from constructedD [OF assms(1)] obtain dlg cw x old where
    f: "lookup s w = Some (DialogObj dlg)" "contentWrapper dlg = Some cw"
     "lookup s cw = Some (ContainerWidgetObj (ContainerWidget x old))" by blast
  from ISettableComposite_SubWidget_InrD [OF assms(2)] obtain c where c: "C = Some c" by blast
  with assms(2) have X: "ISettableComposite_SubWidget (Some c) s = Inr X" by simp
  from OpenExt_post [OF f X, of wd ht app]
  obtain s' d' where p: "OpenExt w (Some c) wd ht app s = Inr s'"
    "lookup s' w = Some (DialogObj d')" "contentWrapper d' = Some cw"
    "lookup s' cw = Some (ContainerWidgetObj (ContainerWidget x
        (if IRenderFixed wd then Some RenderFixed else Some (RenderWithWeight 1))))" by blast
  from p(2,3,4) have "contentSizing w s' =
      Inr (if IRenderFixed wd then Some RenderFixed else Some (RenderWithWeight 1))"
    by (simp add: contentSizing_def the_dialogI)
  with p(1) c show ?thesis by (auto simp: Open_def)
qed

theorem OpenExt_content_sizing_witness:
  "constructed 4 example_state \<and>
   ISettableComposite_SubWidget (Some 0) example_state = Inr (Some 1) \<and>
   (\<exists>s'. OpenExt 4 (Some 0) (Some RenderFixed) (Some RenderMax) 0 example_state = Inr s' \<and>
         contentSizing 4 s' = Inr (Some RenderFixed)) \<and>
   (\<exists>s'. OpenExt 4 (Some 0) (Some (RenderWithRatio (1/2))) (Some RenderMax) 0 example_state = Inr s' \<and>
         contentSizing 4 s' = Inr (Some (RenderWithWeight 1))) \<and>
   Open 4 (Some 0) (Some RenderFixed) 0 example_state =
     OpenExt 4 (Some 0) (Some RenderFixed) (Some RenderFlow) 0 example_state"
  using OpenExt_content_sizing [OF example_constructed example_child, of "Some RenderFixed" "Some RenderMax" 0]
    OpenExt_content_sizing [OF example_constructed example_child, of "Some (RenderWithRatio (1/2))" "Some RenderMax" 0]
    example_constructed example_child by simp

subsection \<open>The Maximizer\<close>

lemma the_overlay_InrD:
  assumes "the_overlay w s = Inr (r, ov)"
  shows "\<exists>d c. lookup s w = Some (DialogObj d) \<and> savedContainer d = Some c \<and>
     ISettableComposite_SubWidget (Some c) s = Inr (Some r) \<and> lookup s r = Some (OverlayObj ov)"
proof -
  from assms obtain d where d: "lookup s w = Some (DialogObj d)"
    unfolding the_overlay_def SavedContainer_def by (auto simp: andThen_eq_Inr)
  with assms obtain sub where sub: "ISettableComposite_SubWidget (savedContainer d) s = Inr sub"
    and rest: "(case sub of None \<Rightarrow> Inl InterfaceConversion
         | Some r \<Rightarrow> (case lookup s r of Some (OverlayObj ov) \<Rightarrow> Inr (r, ov)
            | _ \<Rightarrow> Inl InterfaceConversion)) = Inr (r, ov)"
    unfolding the_overlay_def SavedContainer_def by (auto simp: andThen_eq_Inr the_dialogI)
  from sub obtain c where c: "savedContainer d = Some c"
    by (auto dest: ISettableComposite_SubWidget_InrD)
  from rest have "sub = Some r \<and> lookup s r = Some (OverlayObj ov)"
    by (auto split: option.split_asm obj.split_asm)
  with d c sub show ?thesis by auto
qed

lemma the_overlay_store:
  assumes "the_overlay w s = Inr (r, ov)"
  shows "the_overlay w (store r (OverlayObj ov') s) = Inr (r, ov')"
proof -
  from the_overlay_InrD [OF assms] obtain d c where
    f: "lookup s w = Some (DialogObj d)" "savedContainer d = Some c"
     "ISettableComposite_SubWidget (Some c) s = Inr (Some r)" "lookup s r = Some (OverlayObj ov)" by blast
  have lt: "r < length (heap s)" using f(4) by (rule lookup_Some_lt)
  have ne: "r \<noteq> w" using f(1,4) by auto
  from ISettableComposite_SubWidget_InrD [OF f(3)] f(4) have nc: "r \<noteq> c" by auto
  from f(3) nc have "ISettableComposite_SubWidget (Some c) (store r (OverlayObj ov') s) = Inr (Some r)"
    by (simp add: ISettableComposite_SubWidget_def)
  with f lt ne show ?thesis
    by (simp add: the_overlay_def SavedContainer_def the_dialogI)
qed

lemma store_store [simp]: "store r v (store r v' s) = store r v s"
  by (simp add: store_def)

lemma SetWidth_eq:
  "the_overlay w s = Inr (r, ov) \<Longrightarrow>
   SetWidth w d app s = Inr (store r (OverlayObj (ov\<lparr>width := d\<rparr>)) s)"
  by (simp add: SetWidth_def)

lemma SetHeight_eq:
  "the_overlay w s = Inr (r, ov) \<Longrightarrow>
   SetHeight w d app s = Inr (store r (OverlayObj (ov\<lparr>height := d\<rparr>)) s)"
  by (simp add: SetHeight_def)

lemma Width_eq: "the_overlay w s = Inr (r, ov) \<Longrightarrow> Width w s = Inr (width ov)"
  by (simp add: Width_def)

lemma Height_eq: "the_overlay w s = Inr (r, ov) \<Longrightarrow> Height w s = Inr (height ov)"
  by (simp add: Height_def)

lemma set_both:
  assumes "the_overlay w s = Inr (r, ov)"
  shows "\<exists>s1. SetWidth w a app s = Inr s1 \<and>
           SetHeight w b app s1 = Inr (store r (OverlayObj (ov\<lparr>width := a, height := b\<rparr>)) s) \<and>
           the_overlay w (store r (OverlayObj (ov\<lparr>width := a, height := b\<rparr>)) s) =
             Inr (r, ov\<lparr>width := a, height := b\<rparr>)"
proof -
  define ov1 where "ov1 = ov\<lparr>width := a\<rparr>"
  define s1 where "s1 = store r (OverlayObj ov1) s"
  have 1: "SetWidth w a app s = Inr s1"
    using SetWidth_eq [OF assms] by (simp add: s1_def ov1_def)
  have o1: "the_overlay w s1 = Inr (r, ov1)"
    unfolding s1_def by (rule the_overlay_store [OF assms])
  have 2: "SetHeight w b app s1 = Inr (store r (OverlayObj (ov1\<lparr>height := b\<rparr>)) s1)"
    by (rule SetHeight_eq [OF o1])
  have 3: "store r (OverlayObj (ov1\<lparr>height := b\<rparr>)) s1 =
           store r (OverlayObj (ov\<lparr>width := a, height := b\<rparr>)) s"
    by (simp add: s1_def ov1_def)
  have "the_overlay w (store r (OverlayObj (ov\<lparr>width := a, height := b\<rparr>)) s) =
             Inr (r, ov\<lparr>width := a, height := b\<rparr>)"
    by (rule the_overlay_store [OF assms])
  with 1 2 3 show ?thesis by simp
qed

lemma Open_Width:
  assumes "constructed w s" and "ISettableComposite_SubWidget C s = Inr X"
  shows "\<exists>s1. Open w C wd app s = Inr s1 \<and> IsOpen w s1 = Inr True \<and>
     Width w s1 = Inr wd \<and> Height w s1 = Inr (Some RenderFlow)"
proof -
  from constructedD [OF assms(1)] obtain dlg cw x old where
    f: "lookup s w = Some (DialogObj dlg)" "contentWrapper dlg = Some cw"
     "lookup s cw = Some (ContainerWidgetObj (ContainerWidget x old))" by blast
  from ISettableComposite_SubWidget_InrD [OF assms(2)] obtain c where c: "C = Some c" by blast
  with assms(2) have X: "ISettableComposite_SubWidget (Some c) s = Inr X" by simp
  from OpenExt_post [OF f X, of wd "Some RenderFlow" app]
  obtain s1 d' where p: "OpenExt w (Some c) wd (Some RenderFlow) app s = Inr s1"
    "lookup s1 w = Some (DialogObj d')" "open' d'" "savedContainer d' = Some c"
    "ISettableComposite_SubWidget (Some c) s1 = Inr (Some (length (heap s)))"
    "lookup s1 (length (heap s)) = Some (OverlayObj \<lparr>top = Some w, bottom = X,
        valign = VAlignMiddle, height = Some RenderFlow, halign = HAlignMiddle, width = wd\<rparr>)"
    by blast
  from p(2-6) have "the_overlay w s1 = Inr (length (heap s), \<lparr>top = Some w, bottom = X,
        valign = VAlignMiddle, height = Some RenderFlow, halign = HAlignMiddle, width = wd\<rparr>)"
    by (simp add: the_overlay_def SavedContainer_def the_dialogI)
  from Width_eq [OF this] Height_eq [OF this] p(1,2,3) c show ?thesis
    by (auto simp: Open_def IsOpen_def the_dialogI)
qed

text \<open>
  Claim C7. For a Maximizer m that is not maximized and a dialog w whose overlay is in
  place (Width and Height return, as they do after Open): Maximize returns true and sets
  both policies to the ratio 1, a second Maximize returns false and leaves the saved
  policies and the state as they are, and Unmaximize then returns true and restores the
  width and the height that w had (the whole state is the one before Maximize). Maximize
  on a maximized m and Unmaximize on one that is not maximized return false and change
  nothing.
\<close>

theorem Maximize_Unmaximize:
  "(\<not> Maxed m \<and> Width w s = Inr wd \<and> Height w s = Inr ht \<longrightarrow>
      (\<exists>m1 s1 m2 s2. Maximize m w app s = Inr (True, m1, s1) \<and>
         Width w s1 = Inr (Some (RenderWithRatio 1)) \<and>
         Height w s1 = Inr (Some (RenderWithRatio 1)) \<and>
         Maximize m1 w app s1 = Inr (False, m1, s1) \<and>
         Width' m1 = wd \<and> Height' m1 = ht \<and>
         Unmaximize m1 w app s1 = Inr (True, m2, s2) \<and>
         Width w s2 = Inr wd \<and> Height w s2 = Inr ht \<and> \<not> Maxed m2 \<and> s2 = s)) \<and>
   (Maxed m \<longrightarrow> Maximize m w app s = Inr (False, m, s)) \<and>
   (\<not> Maxed m \<longrightarrow> Unmaximize m w app s = Inr (False, m, s))"
proof (intro conjI impI)
  assume a: "\<not> Maxed m \<and> Width w s = Inr wd \<and> Height w s = Inr ht"
  then obtain r ov where ov: "the_overlay w s = Inr (r, ov)" "width ov = wd" "height ov = ht"
    unfolding Width_def Height_def by (auto simp: andThen_eq_Inr)
  define R where "R = Some (RenderWithRatio 1)"
  define ov1 where "ov1 = ov\<lparr>width := R, height := R\<rparr>"
  define s1 where "s1 = store r (OverlayObj ov1) s"
  define m1 where "m1 = m\<lparr>Width' := wd, Height' := ht, Maxed := True\<rparr>"
  from set_both [OF ov(1), of R app R] obtain sa where
    sa: "SetWidth w R app s = Inr sa" "SetHeight w R app sa = Inr s1"
    and o1: "the_overlay w s1 = Inr (r, ov1)" by (auto simp: s1_def ov1_def)
  have mx: "Maximize m w app s = Inr (True, m1, s1)"
    using a sa by (simp add: Maximize_def m1_def R_def)
  from set_both [OF o1, of wd app ht] obtain sb where
    sb: "SetWidth w wd app s1 = Inr sb"
      "SetHeight w ht app sb = Inr (store r (OverlayObj (ov1\<lparr>width := wd, height := ht\<rparr>)) s1)"
    by blast
  have "ov1\<lparr>width := wd, height := ht\<rparr> = ov" using ov(2,3) by (simp add: ov1_def)
  moreover from the_overlay_InrD [OF ov(1)] have "lookup s r = Some (OverlayObj ov)" by blast
  ultimately have "store r (OverlayObj (ov1\<lparr>width := wd, height := ht\<rparr>)) s1 = s"
    by (simp add: s1_def store_same)
  with sb have um: "Unmaximize m1 w app s1 = Inr (True, m1\<lparr>Maxed := False\<rparr>, s)"
    by (simp add: Unmaximize_def m1_def)
  have "Width w s1 = Inr R \<and> Height w s1 = Inr R"
    using Width_eq [OF o1] Height_eq [OF o1] by (simp_all add: ov1_def)
  moreover have "Maximize m1 w app s1 = Inr (False, m1, s1)"
    by (simp add: Maximize_def m1_def)
  ultimately show "\<exists>m1 s1 m2 s2. Maximize m w app s = Inr (True, m1, s1) \<and>
         Width w s1 = Inr (Some (RenderWithRatio 1)) \<and>
         Height w s1 = Inr (Some (RenderWithRatio 1)) \<and>
         Maximize m1 w app s1 = Inr (False, m1, s1) \<and>
         Width' m1 = wd \<and> Height' m1 = ht \<and>
         Unmaximize m1 w app s1 = Inr (True, m2, s2) \<and>
         Width w s2 = Inr wd \<and> Height w s2 = Inr ht \<and> \<not> Maxed m2 \<and> s2 = s"
    using mx um a unfolding R_def by (auto simp: m1_def)
next
  assume "Maxed m" then show "Maximize m w app s = Inr (False, m, s)" by (simp add: Maximize_def)
next
  assume "\<not> Maxed m" then show "Unmaximize m w app s = Inr (False, m, s)" by (simp add: Unmaximize_def)
qed

theorem Maximize_Unmaximize_witness:
  "Width 4 example_open_state = Inr (Some RenderFixed) \<and>
   Height 4 example_open_state = Inr (Some RenderFlow) \<and>
   (\<exists>m1 s1 m2 s2.
      Maximize \<lparr>Maxed = False, Width' = None, Height' = None\<rparr> 4 0 example_open_state =
        Inr (True, m1, s1) \<and>
      Width 4 s1 = Inr (Some (RenderWithRatio 1)) \<and>
      Height 4 s1 = Inr (Some (RenderWithRatio 1)) \<and>
      Maximize m1 4 0 s1 = Inr (False, m1, s1) \<and>
      Width' m1 = Some RenderFixed \<and> Height' m1 = Some RenderFlow \<and>
      Unmaximize m1 4 0 s1 = Inr (True, m2, s2) \<and>
      Width 4 s2 = Inr (Some RenderFixed) \<and> Height 4 s2 = Inr (Some RenderFlow) \<and>
      \<not> Maxed m2 \<and> s2 = example_open_state) \<and>
   Maximize \<lparr>Maxed = True, Width' = Some RenderFixed, Height' = Some RenderFlow\<rparr> 4 0 example_open_state =
     Inr (False, \<lparr>Maxed = True, Width' = Some RenderFixed, Height' = Some RenderFlow\<rparr>, example_open_state) \<and>
   Unmaximize \<lparr>Maxed = False, Width' = None, Height' = None\<rparr> 4 0 example_open_state =
     Inr (False, \<lparr>Maxed = False, Width' = None, Height' = None\<rparr>, example_open_state)"
proof -
  have a: "Width 4 example_open_state = Inr (Some RenderFixed)"
    "Height 4 example_open_state = Inr (Some RenderFlow)"
    by (simp_all add: Width_def Height_def the_overlay_def ops example_defs lookup_def)
  from Maximize_Unmaximize [of "\<lparr>Maxed = False, Width' = None, Height' = None\<rparr>" 4
      example_open_state "Some RenderFixed" "Some RenderFlow" 0]
    Maximize_Unmaximize [of "\<lparr>Maxed = True, Width' = Some RenderFixed, Height' = Some RenderFlow\<rparr>" 4
      example_open_state "Some RenderFixed" "Some RenderFlow" 0] a
  show ?thesis by simp
qed

subsection \<open>Input routing\<close>

lemma UserInput_closed:
  assumes "lookup s w = Some (DialogObj d)" "\<not> open' d"
  shows "UserInput fwd w ev sz focus app s = fwd (IWidget d) ev sz focus app s"
  using assms by (simp add: UserInput_def IsOpen_def SubWidget_def the_dialogI)

lemma UserInput_open_cancel:
  assumes "lookup s w = Some (DialogObj d)" "open' d" "cancel_gesture ev"
    "\<not> NoEscapeClose (Options d)"
  shows "UserInput fwd w ev sz focus app s = andThen (Close w app s) (\<lambda>s1. Inr (True, s1))"
  using assms
  by (cases ev) (auto simp: UserInput_def IsOpen_def EscapeCloses_def the_dialogI
      cancel_gesture_def GetNoFunction_def Changed_def)

lemma UserInput_open_forward:
  assumes "lookup s w = Some (DialogObj d)" "open' d"
    "\<not> cancel_gesture ev \<or> NoEscapeClose (Options d)"
  shows "UserInput fwd w ev sz focus app s =
     andThen (fwd (IWidget d) ev sz focus app s) (\<lambda>(discarded, s1). Inr (True, s1))"
  using assms
  by (cases ev) (auto simp: UserInput_def IsOpen_def EscapeCloses_def SubWidget_def the_dialogI
      cancel_gesture_def)

lemma example_getters:
  "IsOpen 4 example_open_state = Inr True"
  "SubWidget 4 example_open_state = Inr (Some 2)"
  "EscapeCloses 4 example_open_state = Inr True"
  "IsOpen 4 example_state = Inr False"
  "SubWidget 4 example_state = Inr (Some 2)"
  "IsOpen 4 example_no_escape_state = Inr True"
  "SubWidget 4 example_no_escape_state = Inr (Some 2)"
  "EscapeCloses 4 example_no_escape_state = Inr False"
  "IsOpen 4 example_closed_state = Inr False"
  by (simp_all add: ops EscapeCloses_def example_defs lookup_def)

text \<open>
  Claim C3. While the dialog is open, a UserInput that returns returns true; when the
  event is handed to the body, the answer of the body (\<open>consumed\<close>) is discarded and the
  result is true with the state the body left. While the dialog is closed, UserInput is
  exactly the selectable-aware forwarding of the event to the dialog body.
\<close>

theorem UserInput_result:
  "(IsOpen w s = Inr True \<and> UserInput fwd w ev sz focus app s = Inr (res, s') \<longrightarrow> res) \<and>
   (IsOpen w s = Inr True \<and> SubWidget w s = Inr sub \<and>
    \<not> (cancel_gesture ev \<and> EscapeCloses w s = Inr True) \<and>
    fwd sub ev sz focus app s = Inr (consumed, s') \<longrightarrow>
      UserInput fwd w ev sz focus app s = Inr (True, s')) \<and>
   (IsOpen w s = Inr False \<and> SubWidget w s = Inr sub \<longrightarrow>
      UserInput fwd w ev sz focus app s = fwd sub ev sz focus app s)"
proof (intro conjI impI)
  assume a: "IsOpen w s = Inr True \<and> UserInput fwd w ev sz focus app s = Inr (res, s')"
  then obtain d where d: "lookup s w = Some (DialogObj d)" "open' d"
    unfolding IsOpen_def by (auto simp: andThen_eq_Inr)
  show res
  proof (cases "cancel_gesture ev \<and> \<not> NoEscapeClose (Options d)")
    case True
    with UserInput_open_cancel [OF d, of ev fwd sz focus app] a
    have "andThen (Close w app s) (\<lambda>s1. Inr (True, s1)) = Inr (res, s')" by simp
    then show ?thesis by (auto simp: andThen_eq_Inr)
  next
    case False
    with UserInput_open_forward [OF d, of ev fwd sz focus app] a
    have "andThen (fwd (IWidget d) ev sz focus app s) (\<lambda>(discarded, s1). Inr (True, s1)) =
      Inr (res, s')" by simp
    then show ?thesis by (auto simp: andThen_eq_Inr)
  qed
next
  assume a: "IsOpen w s = Inr True \<and> SubWidget w s = Inr sub \<and>
    \<not> (cancel_gesture ev \<and> EscapeCloses w s = Inr True) \<and>
    fwd sub ev sz focus app s = Inr (consumed, s')"
  then obtain d where d: "lookup s w = Some (DialogObj d)" "open' d" "IWidget d = sub"
    unfolding IsOpen_def SubWidget_def by (auto simp: andThen_eq_Inr)
  with a have "\<not> cancel_gesture ev \<or> NoEscapeClose (Options d)"
    by (auto simp: EscapeCloses_def the_dialogI)
  from UserInput_open_forward [OF d(1,2) this, of fwd sz focus app] a d(3)
  show "UserInput fwd w ev sz focus app s = Inr (True, s')" by simp
next
  assume a: "IsOpen w s = Inr False \<and> SubWidget w s = Inr sub"
  then obtain d where d: "lookup s w = Some (DialogObj d)" "\<not> open' d" "IWidget d = sub"
    unfolding IsOpen_def SubWidget_def by (auto simp: andThen_eq_Inr)
  from UserInput_closed [OF d(1,2), of fwd ev sz focus app] d(3)
  show "UserInput fwd w ev sz focus app s = fwd sub ev sz focus app s" by simp
qed

theorem UserInput_result_witness:
  "IsOpen 4 example_open_state = Inr True \<and> SubWidget 4 example_open_state = Inr (Some 2) \<and>
   \<not> (cancel_gesture (EventKey KeyEnter) \<and> EscapeCloses 4 example_open_state = Inr True) \<and>
   idle_body (Some 2) (EventKey KeyEnter) () () 0 example_open_state = Inr (False, example_open_state) \<and>
   UserInput idle_body 4 (EventKey KeyEnter) () () 0 example_open_state = Inr (True, example_open_state) \<and>
   IsOpen 4 example_state = Inr False \<and> SubWidget 4 example_state = Inr (Some 2) \<and>
   UserInput idle_body 4 (EventKey KeyEnter) () () 0 example_state = Inr (False, example_state)"
proof -
  have n: "\<not> (cancel_gesture (EventKey KeyEnter) \<and> EscapeCloses 4 example_open_state = Inr True)"
    by (simp add: cancel_gesture_def)
  have b: "idle_body (Some 2) (EventKey KeyEnter) () () 0 example_open_state = Inr (False, example_open_state)"
    by (simp add: idle_body_def)
  from UserInput_result [where w = 4 and s = example_open_state and fwd = idle_body
      and ev = "EventKey KeyEnter" and sz = "()" and focus = "()" and app = 0 and sub = "Some 2"
      and consumed = False and s' = example_open_state]
    example_getters(1,2) n b
  have 1: "UserInput idle_body 4 (EventKey KeyEnter) () () 0 example_open_state = Inr (True, example_open_state)"
    by blast
  from UserInput_result [where w = 4 and s = example_state and fwd = idle_body
      and ev = "EventKey KeyEnter" and sz = "()" and focus = "()" and app = 0 and sub = "Some 2"]
    example_getters(4,5)
  have 2: "UserInput idle_body 4 (EventKey KeyEnter) () () 0 example_state = Inr (False, example_state)"
    by (simp add: idle_body_def)
  from 1 2 n b example_getters show ?thesis by simp
qed

text \<open>
  Claim C4. While the dialog is open and EscapeCloses holds, an escape-key or interrupt
  event runs the callback of GetNoFunction, which is Close, and the body is not
  consulted: the result does not depend on the forwarding function; when the dialog has
  its saved container, the container's child is the saved child afterwards and the
  dialog is closed. With NoEscapeClose set, the same event goes to the body, the result
  is true and the state is the one the body left, so the dialog is open unless the body
  closed it. EscapeCloses is the negation of the option NoEscapeClose.
\<close>

theorem escape_closes:
  "(IsOpen w s = Inr True \<and> cancel_gesture ev \<and> EscapeCloses w s = Inr True \<longrightarrow>
      UserInput fwd w ev sz focus app s = andThen (Close w app s) (\<lambda>s1. Inr (True, s1))) \<and>
   (IsOpen w s = Inr True \<and> cancel_gesture ev \<and> EscapeCloses w s = Inr True \<and>
    restorable w s \<longrightarrow>
      (\<exists>c X s'. SavedContainer w s = Inr (Some c) \<and> SavedSubWidget w s = Inr X \<and>
         UserInput fwd w ev sz focus app s = Inr (True, s') \<and>
         ISettableComposite_SubWidget (Some c) s' = Inr X \<and> IsOpen w s' = Inr False)) \<and>
   (IsOpen w s = Inr True \<and> EscapeCloses w s = Inr False \<and> SubWidget w s = Inr sub \<longrightarrow>
      UserInput fwd w ev sz focus app s =
        andThen (fwd sub ev sz focus app s) (\<lambda>(discarded, s1). Inr (True, s1))) \<and>
   (IsOpen w s = Inr True \<and> EscapeCloses w s = Inr False \<and> SubWidget w s = Inr sub \<and>
    fwd sub ev sz focus app s = Inr (consumed, s1) \<longrightarrow>
      UserInput fwd w ev sz focus app s = Inr (True, s1)) \<and>
   (lookup s w = Some (DialogObj d) \<longrightarrow> EscapeCloses w s = Inr (\<not> NoEscapeClose (Options d)))"
proof -
  have 1: "UserInput fwd w ev sz focus app s = andThen (Close w app s) (\<lambda>s1. Inr (True, s1))"
    if h: "IsOpen w s = Inr True \<and> cancel_gesture ev \<and> EscapeCloses w s = Inr True"
  proof -
    from h obtain d where d: "lookup s w = Some (DialogObj d)" "open' d"
      unfolding IsOpen_def by (auto simp: andThen_eq_Inr)
    with h have "\<not> NoEscapeClose (Options d)" by (auto simp: EscapeCloses_def the_dialogI)
    with h d show ?thesis by (auto intro: UserInput_open_cancel)
  qed
  have 2: "\<exists>c X s'. SavedContainer w s = Inr (Some c) \<and> SavedSubWidget w s = Inr X \<and>
         UserInput fwd w ev sz focus app s = Inr (True, s') \<and>
         ISettableComposite_SubWidget (Some c) s' = Inr X \<and> IsOpen w s' = Inr False"
    if h: "IsOpen w s = Inr True \<and> cancel_gesture ev \<and> EscapeCloses w s = Inr True \<and>
      restorable w s"
  proof -
    from h have r: "restorable w s" and o: "IsOpen w s = Inr True" by simp_all
    from restorable_openD [OF r o] obtain d c Y where
      f: "lookup s w = Some (DialogObj d)" "savedContainer d = Some c"
      "ISettableComposite_SubWidget (Some c) s = Inr Y" by blast
    from Close_post [OF f, of app] obtain s' d' where
      q: "Close w app s = Inr s'" "lookup s' w = Some (DialogObj d')" "\<not> open' d'"
      "ISettableComposite_SubWidget (Some c) s' = Inr (savedSubWidgetWidget d)" by blast
    from 1 h q(1) have "UserInput fwd w ev sz focus app s = Inr (True, s')" by simp
    moreover from f have "SavedContainer w s = Inr (Some c)"
      "SavedSubWidget w s = Inr (savedSubWidgetWidget d)"
      by (simp_all add: SavedContainer_def SavedSubWidget_def the_dialogI)
    moreover from q(2,3) have "IsOpen w s' = Inr False" by (simp add: IsOpen_def the_dialogI)
    ultimately show ?thesis using q(4) by blast
  qed
  have 3: "UserInput fwd w ev sz focus app s =
        andThen (fwd sub ev sz focus app s) (\<lambda>(discarded, s1). Inr (True, s1))"
    if h: "IsOpen w s = Inr True \<and> EscapeCloses w s = Inr False \<and> SubWidget w s = Inr sub"
  proof -
    from h obtain d where d: "lookup s w = Some (DialogObj d)" "open' d" "IWidget d = sub"
      unfolding IsOpen_def SubWidget_def by (auto simp: andThen_eq_Inr)
    with h have "\<not> cancel_gesture ev \<or> NoEscapeClose (Options d)"
      by (auto simp: EscapeCloses_def the_dialogI)
    from UserInput_open_forward [OF d(1,2) this, of fwd sz focus app] d(3) show ?thesis by simp
  qed
  have 4: "UserInput fwd w ev sz focus app s = Inr (True, s1)"
    if h: "IsOpen w s = Inr True \<and> EscapeCloses w s = Inr False \<and> SubWidget w s = Inr sub \<and>
      fwd sub ev sz focus app s = Inr (consumed, s1)"
    using 3 h by simp
  have 5: "EscapeCloses w s = Inr (\<not> NoEscapeClose (Options d))"
    if "lookup s w = Some (DialogObj d)"
    using that by (simp add: EscapeCloses_def the_dialogI)
  from 1 2 3 4 5 show ?thesis by blast
qed

theorem escape_closes_witness:
  "IsOpen 4 example_open_state = Inr True \<and> cancel_gesture (EventKey KeyEsc) \<and>
   EscapeCloses 4 example_open_state = Inr True \<and> restorable 4 example_open_state \<and>
   SavedContainer 4 example_open_state = Inr (Some 0) \<and>
   SavedSubWidget 4 example_open_state = Inr (Some 1) \<and>
   UserInput idle_body 4 (EventKey KeyEsc) () () 0 example_open_state = Inr (True, example_closed_state) \<and>
   ISettableComposite_SubWidget (Some 0) example_closed_state = Inr (Some 1) \<and>
   IsOpen 4 example_closed_state = Inr False \<and>
   IsOpen 4 example_no_escape_state = Inr True \<and>
   EscapeCloses 4 example_no_escape_state = Inr False \<and>
   SubWidget 4 example_no_escape_state = Inr (Some 2) \<and>
   idle_body (Some 2) (EventKey KeyEsc) () () 0 example_no_escape_state =
     Inr (False, example_no_escape_state) \<and>
   UserInput idle_body 4 (EventKey KeyEsc) () () 0 example_no_escape_state =
     Inr (True, example_no_escape_state)"
proof -
  have c: "cancel_gesture (EventKey KeyEsc)" by (simp add: cancel_gesture_def)
  have r: "restorable 4 example_open_state"
    by (simp add: restorable_def example_defs lookup_def)
  have g: "SavedContainer 4 example_open_state = Inr (Some 0)"
    "SavedSubWidget 4 example_open_state = Inr (Some 1)"
    "ISettableComposite_SubWidget (Some 0) example_closed_state = Inr (Some 1)"
    by (simp_all add: ops example_defs lookup_def)
  have b: "idle_body (Some 2) (EventKey KeyEsc) () () 0 example_no_escape_state =
     Inr (False, example_no_escape_state)" by (simp add: idle_body_def)
  from escape_closes [where w = 4 and s = example_open_state and ev = "EventKey KeyEsc"
      and fwd = idle_body and sz = "()" and focus = "()" and app = 0]
    example_getters(1,3) c
  have 1: "UserInput idle_body 4 (EventKey KeyEsc) () () 0 example_open_state =
      Inr (True, example_closed_state)"
    by (simp add: example_Close)
  from escape_closes [where w = 4 and s = example_no_escape_state and ev = "EventKey KeyEsc"
      and fwd = idle_body and sz = "()" and focus = "()" and app = 0 and sub = "Some 2"
      and consumed = False and ?s1.0 = example_no_escape_state]
    example_getters(6,7,8) b
  have 2: "UserInput idle_body 4 (EventKey KeyEsc) () () 0 example_no_escape_state =
     Inr (True, example_no_escape_state)" by blast
  from 1 2 c r g b example_getters show ?thesis by simp
qed

subsection \<open>Construction\<close>

lemma enumerate_eq_Nil [simp]: "enumerate n xs = [] \<longleftrightarrow> xs = []"
  by (cases xs) simp_all

lemma buttons_loop_eq:
  "buttons_loop res bg bst i bs colsW =
     colsW @ map (\<lambda>(j, b). button_column res bg bst j b) (enumerate i bs)"
proof (induction bs arbitrary: i colsW)
  case Nil
  then show ?case by simp
next
  case (Cons b bs)
  show ?case
    by (cases "Action b") (simp_all add: Cons.IH button_column_def button_callback_def Let_def)
qed

lemma click_targets_columns:
  "concat (map (click_targets \<circ> (\<lambda>(j, b). button_column res bg bst j b)) xs) =
     map (\<lambda>(j, b). [button_callback res j b]) xs"
  by (induction xs) (auto simp: button_column_def)

lemma New_res: "fst (New content opts s) = length (heap s) + 2"
  by (simp add: New_def Let_def split_beta)

lemma New_constructed:
  "constructed (fst (New content opts s)) (snd (New content opts s)) \<and>
   restorable (fst (New content opts s)) (snd (New content opts s)) \<and>
   IsOpen (fst (New content opts s)) (snd (New content opts s)) = Inr False \<and>
   SavedContainer (fst (New content opts s)) (snd (New content opts s)) = Inr None \<and>
   SavedSubWidget (fst (New content opts s)) (snd (New content opts s)) = Inr None \<and>
   dialog_satisfies saved_invariant (fst (New content opts s)) (snd (New content opts s))"
  by (simp add: New_def Let_def split_beta constructed_def restorable_def ops
      dialog_satisfies_def saved_invariant_def)

text \<open>
  Claim C6. The body that New composes is a pile. With no button specs its only row is
  the content wrapper: there is no divider and no button row. With N button specs the
  rows are the wrapper, the divider and a row of N columns, and the body has exactly N
  click targets; the target at index i carries the one callback "cb-i", whose function
  is the action of the spec when it has one and otherwise the closure that calls Close
  on the dialog that this very call of New returns.
\<close>

theorem New_body:
  "\<exists>t wrapper.
     dialog_body (fst (New content opts s)) (snd (New content opts s)) = Some t \<and>
     lookup (snd (New content opts s)) wrapper =
       Some (ContainerWidgetObj (ContainerWidget content (Some (RenderWithWeight 1)))) \<and>
     (given_buttons opts = [] \<longrightarrow> body_rows t = [ContainerWidgetAt wrapper]) \<and>
     (given_buttons opts \<noteq> [] \<longrightarrow>
        (\<exists>border cols. body_rows t =
            [ContainerWidgetAt wrapper, styled_New divider_NewUnicodeAlt border,
             columns_New cols] \<and> length cols = length (given_buttons opts))) \<and>
     length (click_targets t) = length (given_buttons opts) \<and>
     click_targets t =
       map (\<lambda>(i, b). [WidgetCallback (''cb-'' @ decimal i)
                          (case Action b of None \<Rightarrow> CloseFn (fst (New content opts s))
                                          | Some f \<Rightarrow> f)])
         (enumerate 0 (given_buttons opts)) \<and>
     (\<forall>name wdg st. Changed (WidgetCallback name (CloseFn (fst (New content opts s)))) app wdg st =
        Close (fst (New content opts s)) app st)"
proof -
  define res where "res = fst (New content opts s)"
  define s' where "s' = snd (New content opts s)"
  define bs where "bs = given_buttons opts"
  have cols: "(case opts of [] \<Rightarrow> [] | o0 # others \<Rightarrow> buttons_loop r bg bst 0 (Buttons o0) []) =
     map (\<lambda>(j, b). button_column r bg bst j b) (enumerate 0 bs)" for r bg bst
    unfolding bs_def given_buttons_def by (cases opts) (simp_all add: buttons_loop_eq)
  have ch: "\<forall>name wdg st. Changed (WidgetCallback name (CloseFn res)) app wdg st = Close res app st"
    by (simp add: Changed_def)
  define opt where "opt = (case opts of [] \<Rightarrow> zero_Options | o0 # others \<Rightarrow> o0)"
  define bst where "bst = (case ButtonStyle opt of
      None \<Rightarrow> MakePaletteEntry DefaultButtonText DefaultButton | Some st \<Rightarrow> st)"
  define bgs where "bgs = (case BackgroundStyle opt of
      None \<Rightarrow> MakePaletteEntry DefaultText DefaultBackground | Some st \<Rightarrow> st)"
  define brd where "brd = (case BackgroundStyle opt of
      None \<Rightarrow> MakePaletteEntry DefaultButton DefaultBackground | Some st \<Rightarrow> st)"
  define wr where "wr = length (heap s)"
  define colsW where "colsW = map (\<lambda>(j, b). button_column (wr + 2) bgs bst j b) (enumerate 0 bs)"
  define pileW where "pileW = ContainerWidgetAt wr #
      (if bs \<noteq> [] then [styled_New divider_NewUnicodeAlt brd, columns_New colsW] else [])"
  define d where "d = cellmod_Opaque (styled_New
      (framed_New (pile_NewFlow pileW) \<lparr>Frame = UnicodeAltFrame, Style = brd\<rparr>) bgs)"
  define t where "t = (if \<not> NoShadow opt then shadow_New d 1 else d)"
  have r: "res = wr + 2" unfolding res_def wr_def by (rule New_res)
  have db: "dialog_body res s' = Some t"
    unfolding res_def s'_def 
    by (simp add: New_def Let_def split_beta cols dialog_body_def t_def d_def pileW_def
        colsW_def wr_def brd_def bgs_def bst_def opt_def)
  have wl: "lookup s' wr =
       Some (ContainerWidgetObj (ContainerWidget content (Some (RenderWithWeight 1))))"
    unfolding s'_def wr_def by (simp add: New_def Let_def split_beta)
  have rows: "body_rows t = pileW" by (simp add: t_def d_def)
  have "click_targets t = concat (map click_targets pileW)" by (simp add: t_def d_def)
  also have "\<dots> = map (\<lambda>(i, b). [button_callback res i b]) (enumerate 0 bs)"
    unfolding pileW_def colsW_def r by (simp add: click_targets_columns)
  finally have ct: "click_targets t = map (\<lambda>(i, b). [button_callback res i b]) (enumerate 0 bs)" .
  then have len: "length (click_targets t) = length bs" by simp
  have "bs \<noteq> [] \<longrightarrow> (\<exists>border cols. body_rows t =
            [ContainerWidgetAt wr, styled_New divider_NewUnicodeAlt border,
             columns_New cols] \<and> length cols = length bs)"
    unfolding rows pileW_def colsW_def by simp
  moreover have "bs = [] \<longrightarrow> body_rows t = [ContainerWidgetAt wr]"
    unfolding rows pileW_def by simp
  ultimately have "\<exists>t wrapper. dialog_body res s' = Some t \<and>
     lookup s' wrapper =
       Some (ContainerWidgetObj (ContainerWidget content (Some (RenderWithWeight 1)))) \<and>
     (bs = [] \<longrightarrow> body_rows t = [ContainerWidgetAt wrapper]) \<and>
     (bs \<noteq> [] \<longrightarrow>
        (\<exists>border cols. body_rows t =
            [ContainerWidgetAt wrapper, styled_New divider_NewUnicodeAlt border,
             columns_New cols] \<and> length cols = length bs)) \<and>
     length (click_targets t) = length bs \<and>
     click_targets t = map (\<lambda>(i, b). [button_callback res i b]) (enumerate 0 bs) \<and>
     (\<forall>name wdg st. Changed (WidgetCallback name (CloseFn res)) app wdg st = Close res app st)"
    using db wl ct len ch by blast
  then show ?thesis unfolding res_def s'_def bs_def button_callback_def .
qed

theorem New_body_witness:
  "given_buttons [ok_cancel] \<noteq> [] \<and> given_buttons [] = [] \<and>
   (\<exists>t wrapper. dialog_body 4 (snd (New (Some 1) [ok_cancel] small_state)) = Some t \<and>
      (\<exists>border cols. body_rows t =
            [ContainerWidgetAt wrapper, styled_New divider_NewUnicodeAlt border,
             columns_New cols] \<and> length cols = 2) \<and>
      click_targets t = [[WidgetCallback ''cb-0'' QuitFn], [WidgetCallback ''cb-1'' (CloseFn 4)]]) \<and>
   (\<exists>t wrapper. dialog_body 4 (snd (New (Some 1) [] small_state)) = Some t \<and>
      body_rows t = [ContainerWidgetAt wrapper] \<and> click_targets t = [])"
proof -
  have r: "fst (New (Some 1) opts small_state) = 4" for opts
    by (simp add: New_res small_state_def)
  have g: "given_buttons [ok_cancel] =
      [\<lparr>Msg = ''Ok'', Action = Some QuitFn\<rparr>, \<lparr>Msg = ''Cancel'', Action = None\<rparr>]"
    "given_buttons [] = []"
    by (simp_all add: given_buttons_def ok_cancel_def)
  have d: "decimal 0 = ''0''" "decimal (Suc 0) = ''1''"
    by (simp_all add: decimal.simps)
  from New_body [of "Some 1" "[ok_cancel]" small_state 0] New_body [of "Some 1" "[]" small_state 0]
  show ?thesis unfolding r g by (simp add: d numeral_2_eq_2) blast
qed

end
